theory Spec2Isabelle
  imports Main "HOL-Library.Sublist"
begin

section \<open>Strings\<close>

text \<open>
  A JavaScript string is modelled as a \<^typ>\<open>string\<close>: a list of code units below 256.
  \<open>String.prototype.trim\<close> removes white space and line terminators from both ends; among
  the code units below 256 these are TAB, LF, VT, FF, CR, SPACE and NBSP. The same set is what
  the regular-expression class \<open>\s\<close> matches.
\<close>

definition is_js_space :: "char \<Rightarrow> bool" where
  "is_js_space c = (c \<in> set [CHR 0x09, CHR 0x0A, CHR 0x0B, CHR 0x0C, CHR 0x0D, CHR 0x20, CHR 0xA0])"

definition js_trim :: "string \<Rightarrow> string" where
  "js_trim s = rev (dropWhile is_js_space (rev (dropWhile is_js_space s)))"

section \<open>Slug validation (markdown-utils.ts)\<close>

text \<open>
  The argument of \<open>validateDocumentSlug\<close> has type \<open>unknown\<close>: it is a string, or some other
  value (carried here as the text valibot prints for it in its type issue).
\<close>

datatype js_unknown = JsString string | JsOther string

text \<open>The \<open>Response\<close> that is thrown: its body and its status.\<close>

record response =
  body_text :: string
  status :: nat

text \<open>The character class \<open>[a-zA-Z0-9-_/]\<close> of the schema's regular expression.\<close>

definition slug_char :: "char \<Rightarrow> bool" where
  "slug_char c =
     (c \<in> set (''abcdefghijklmnopqrstuvwxyz'' @ ''ABCDEFGHIJKLMNOPQRSTUVWXYZ''
                @ ''0123456789'' @ ''-_/''))"

text \<open>
  \<open>documentSlugSchema\<close>: the valibot pipe. \<open>v.string()\<close> rejects a non-string and stops the
  pipe; \<open>v.trim()\<close> transforms; the four validations that follow all run and each adds its
  issue. The result is the list of issue messages, or the trimmed output when there is none.
\<close>

definition documentSlugSchema :: "js_unknown \<Rightarrow> string list + string" where
  "documentSlugSchema input =
     (case input of
        JsOther r \<Rightarrow> Inl [''Invalid type: Expected string but received '' @ r]
      | JsString s \<Rightarrow>
          (let slug = js_trim s;
               issues =
                 (if length slug < 1 then [''Slug cannot be empty''] else [])
                 @ (if slug \<noteq> [] \<and> list_all slug_char slug then []
                    else [''Slug can only contain letters, numbers, hyphens, underscores, and forward slashes''])
                 @ (if \<not> sublist ''..'' slug then [] else [''Directory traversal not allowed''])
                 @ (if \<not> prefix ''/'' slug then [] else [''Slug cannot start with forward slash''])
                 @ (if \<not> suffix ''/'' slug then [] else [''Slug cannot end with forward slash''])
           in if issues = [] then Inr slug else Inl issues))"

text \<open>
  \<open>validateDocumentSlug\<close>: \<open>v.parse\<close> throws a \<open>ValiError\<close> holding the issues, and the
  \<open>catch\<close> turns it into a \<open>Response\<close> of status 400 whose body is the first issue's message
  (\<open>'Invalid document url'\<close> when that is missing or empty).
\<close>

definition validateDocumentSlug :: "js_unknown \<Rightarrow> response + string" where
  "validateDocumentSlug slug =
     (case documentSlugSchema slug of
        Inr out \<Rightarrow> Inr out
      | Inl issues \<Rightarrow>
          Inl \<lparr>body_text = (case issues of
                              [] \<Rightarrow> ''Invalid document url''
                            | m # _ \<Rightarrow> if m = [] then ''Invalid document url'' else m),
               status = 400\<rparr>)"

text \<open>The condition of the claim on the trimmed string.\<close>

definition slug_ok :: "string \<Rightarrow> bool" where
  "slug_ok t = (t \<noteq> [] \<and> list_all slug_char t \<and> \<not> sublist ''..'' t
                \<and> \<not> prefix ''/'' t \<and> \<not> suffix ''/'' t)"

section \<open>Runtime data (markdown-types.ts, markdown-data.ts)\<close>

text \<open>
  A \<open>MarkdownMeta\<close> or \<open>Frontmatter\<close> object, and a \<open>Record<string, MarkdownContent>\<close>, is a
  list of properties with their values, in the order the properties were created; \<open>map_of\<close>
  reads a property. A property whose value is \<open>undefined\<close> is an absent key (JSON drops it,
  and \<open>||\<close> and \<open>===\<close> treat both alike). The values that occur are strings and integers.
\<close>

datatype jsval = JStr string | JNum int

type_synonym js_object = "(string \<times> jsval) list"

record MarkdownContent =
  frontmatter :: js_object
  content :: string

type_synonym content_map = "(string \<times> MarkdownContent) list"

datatype build_mode = Single | Chunked

record GlobalManifest =
  documents :: "js_object list"
  chunkedFolders :: "string list option"
  buildMode :: build_mode

text \<open>
  What a file under the asset directory holds, and what a response body carries: the JSON
  text of a manifest or of a content record, the gzip compression of such a text, or
  something else.
\<close>

datatype artifact = ManifestJson GlobalManifest | ContentJson content_map | Gzipped artifact | Other string

text \<open>
  Reading \<open>record[key]\<close> on an object made by \<open>JSON.parse\<close> or an object literal finds the
  own property, and otherwise the member of \<open>Object.prototype\<close> of that name, all of which
  are truthy. \<open>record[key] || null\<close> is therefore one of three things.
\<close>

definition object_prototype_members :: "string list" where
  "object_prototype_members =
     [''constructor'', ''toString'', ''toLocaleString'', ''valueOf'', ''hasOwnProperty'',
      ''isPrototypeOf'', ''propertyIsEnumerable'', ''__proto__'', ''__defineGetter__'',
      ''__defineSetter__'', ''__lookupGetter__'', ''__lookupSetter__'']"

datatype 'v lookup = Null | Own 'v | Inherited string

definition index_or_null :: "(string \<times> 'v) list \<Rightarrow> string \<Rightarrow> 'v lookup" where
  "index_or_null obj key =
     (case map_of obj key of
        Some v \<Rightarrow> Own v
      | None \<Rightarrow> if key \<in> set object_prototype_members then Inherited key else Null)"

subsection \<open>The fetcher and fetchContent\<close>

text \<open>
  The \<open>ASSETS\<close> binding maps a URL to a response, or rejects (\<open>Inl\<close> the error's message).
  The body type \<open>'b\<close> is left open. Decompression (\<open>DecompressionStream\<close>, here
  \<open>gunzip\<close>) and \<open>JSON.parse\<close> with its unchecked cast to \<open>T\<close> (here \<open>parse\<close>, \<open>Inl\<close> the
  message of the \<open>SyntaxError\<close>) belong to the platform; they are parameters, and each can
  fail.
\<close>

record 'b fetch_response =
  ok :: bool
  http_status :: nat
  statusText :: string
  body :: 'b

type_synonym 'b fetcher = "string \<Rightarrow> string + 'b fetch_response"

text \<open>The \<open>Error\<close> that \<open>fetchContent\<close> throws: both URLs and the cause of the second failure.\<close>

datatype fetch_cause = HttpError nat string | Thrown string

datatype fetch_error = FetchFailed string string fetch_cause

text \<open>\<open>s.replace(pat, rep)\<close> with a string pattern replaces the first occurrence only.\<close>

fun replace_first :: "string \<Rightarrow> string \<Rightarrow> string \<Rightarrow> string" where
  "replace_first pat rep [] = (if pat = [] then rep else [])"
| "replace_first pat rep (c # cs) =
     (if prefix pat (c # cs) then rep @ drop (length pat) (c # cs)
      else c # replace_first pat rep cs)"

definition baseUrl_of :: "string \<Rightarrow> string" where
  "baseUrl_of url = (if suffix ''.gz'' url then replace_first ''.gz'' [] url else url)"

definition gzUrl_of :: "string \<Rightarrow> string" where
  "gzUrl_of url = baseUrl_of url @ ''.gz''"

text \<open>The compressed attempt: \<open>None\<close> when it falls through to the fallback.\<close>

definition try_compressed ::
  "('b \<Rightarrow> 'b option) \<Rightarrow> ('b \<Rightarrow> string + 'j) \<Rightarrow> 'b fetcher \<Rightarrow> string \<Rightarrow> 'j option" where
  "try_compressed gunzip parse assets url =
     (case assets (gzUrl_of url) of
        Inl _ \<Rightarrow> None
      | Inr gzResponse \<Rightarrow>
          if ok gzResponse then
            (case gunzip (body gzResponse) of
               None \<Rightarrow> None
             | Some decompressedText \<Rightarrow>
                 (case parse decompressedText of Inl _ \<Rightarrow> None | Inr parsed \<Rightarrow> Some parsed))
          else None)"

definition try_uncompressed ::
  "('b \<Rightarrow> string + 'j) \<Rightarrow> 'b fetcher \<Rightarrow> string \<Rightarrow> fetch_cause + 'j" where
  "try_uncompressed parse assets url =
     (case assets (baseUrl_of url) of
        Inl msg \<Rightarrow> Inl (Thrown msg)
      | Inr response \<Rightarrow>
          if \<not> ok response then Inl (HttpError (http_status response) (statusText response))
          else (case parse (body response) of
                  Inl msg \<Rightarrow> Inl (Thrown msg)
                | Inr parsed \<Rightarrow> Inr parsed))"

text \<open>
  \<open>fetchContent\<close> returns the parsed value or the thrown error, and the URLs it requested,
  in order.
\<close>

definition fetchContent ::
  "('b \<Rightarrow> 'b option) \<Rightarrow> ('b \<Rightarrow> string + 'j) \<Rightarrow> string \<Rightarrow> 'b fetcher
     \<Rightarrow> (fetch_error + 'j) \<times> string list" where
  "fetchContent gunzip parse url assets =
     (case try_compressed gunzip parse assets url of
        Some parsed \<Rightarrow> (Inr parsed, [gzUrl_of url])
      | None \<Rightarrow>
          (case try_uncompressed parse assets url of
             Inr parsed \<Rightarrow> (Inr parsed, [gzUrl_of url, baseUrl_of url])
           | Inl cause \<Rightarrow>
               (Inl (FetchFailed (gzUrl_of url) (baseUrl_of url) cause),
                [gzUrl_of url, baseUrl_of url])))"

subsection \<open>Asset URLs (markdown-config.ts, markdown-utils.ts)\<close>

definition MARKDOWN_CONFIG_PREFIX :: string where
  "MARKDOWN_CONFIG_PREFIX = ''markdown''"

definition ASSET_PREFIX_fetch :: string where
  "ASSET_PREFIX_fetch = ''/assets/docs''"

text \<open>\<open>s || d\<close> for an optional string: \<open>undefined\<close> and the empty string are falsy.\<close>

definition or_default :: "string option \<Rightarrow> string \<Rightarrow> string" where
  "or_default s d = (case s of None \<Rightarrow> d | Some v \<Rightarrow> if v = [] then d else v)"

text \<open>
  \<open>formatAssetUrl\<close>. The optional \<open>Request\<close> is carried as its \<open>url\<close>; \<open>new URL(url, base).href\<close>
  belongs to the platform (\<open>resolve\<close>) and throws a \<open>TypeError\<close> on an invalid base, which
  is \<open>None\<close> here.
\<close>

definition formatAssetUrl ::
  "(string \<Rightarrow> string \<Rightarrow> string option) \<Rightarrow> string \<Rightarrow> string option \<Rightarrow> string option
     \<Rightarrow> string option" where
  "formatAssetUrl resolve filename request pfx =
     (let fetchPrefix = or_default pfx ASSET_PREFIX_fetch;
          normalizedPrefix = (if suffix ''/'' fetchPrefix then butlast fetchPrefix else fetchPrefix);
          url = normalizedPrefix @ ''/'' @ filename
      in case request of None \<Rightarrow> Some url | Some request_url \<Rightarrow> resolve url request_url)"

subsection \<open>The module's caches\<close>

text \<open>
  The four module-level caches of markdown-data.ts. \<open>requested\<close> is not part of the module:
  it records every URL requested from a fetcher so far, so that "without fetching" can be
  stated.
\<close>

record cache_state =
  manifestCache :: "js_object list option"
  globalManifestCache :: "GlobalManifest option"
  contentCache :: "content_map option"
  folderContentCache :: "string \<rightharpoonup> content_map"
  requested :: "string list"

definition initial_state :: cache_state where
  "initial_state =
     \<lparr>manifestCache = None, globalManifestCache = None, contentCache = None,
      folderContentCache = Map.empty, requested = []\<rparr>"

text \<open>The platform functions the runtime uses.\<close>

record 'b platform =
  gunzip :: "'b \<Rightarrow> 'b option"
  parse_manifest :: "'b \<Rightarrow> string + GlobalManifest"
  parse_content :: "'b \<Rightarrow> string + content_map"
  resolve_url :: "string \<Rightarrow> string \<Rightarrow> string option"

datatype runtime_error = FetchError fetch_error | UrlError

text \<open>
  An async function of the module takes the caches and returns what it resolves to, or the
  error it rejects with, and the caches afterwards.
\<close>

type_synonym 'a action = "cache_state \<Rightarrow> (runtime_error + 'a) \<times> cache_state"

definition await :: "'a action \<Rightarrow> ('a \<Rightarrow> 'c action) \<Rightarrow> 'c action" where
  "await m f st = (case m st of (Inl e, st') \<Rightarrow> (Inl e, st') | (Inr x, st') \<Rightarrow> f x st')"

definition return :: "'a \<Rightarrow> 'a action" where
  "return x st = (Inr x, st)"

text \<open>\<open>try { body } catch (_error) { return fallback }\<close>\<close>

definition try_catch :: "'a action \<Rightarrow> 'a \<Rightarrow> 'a action" where
  "try_catch m fallback st =
     (case m st of (Inl _, st') \<Rightarrow> (Inr fallback, st') | (Inr x, st') \<Rightarrow> (Inr x, st'))"

text \<open>\<open>fetchContent\<close> run against the caches' request log.\<close>

definition fetch_json ::
  "'b platform \<Rightarrow> ('b \<Rightarrow> string + 'j) \<Rightarrow> string \<Rightarrow> 'b fetcher \<Rightarrow> 'j action" where
  "fetch_json pf parse url assets st =
     (case fetchContent (gunzip pf) parse url assets of
        (Inl e, urls) \<Rightarrow> (Inl (FetchError e), st\<lparr>requested := requested st @ urls\<rparr>)
      | (Inr j, urls) \<Rightarrow> (Inr j, st\<lparr>requested := requested st @ urls\<rparr>))"

definition format_url ::
  "'b platform \<Rightarrow> string \<Rightarrow> string option \<Rightarrow> string action" where
  "format_url pf filename request st =
     (case formatAssetUrl (resolve_url pf) filename request None of
        None \<Rightarrow> (Inl UrlError, st)
      | Some url \<Rightarrow> (Inr url, st))"

subsection \<open>Manifest functions\<close>

definition getGlobalManifest ::
  "'b platform \<Rightarrow> 'b fetcher \<Rightarrow> string option \<Rightarrow> string option \<Rightarrow> GlobalManifest action" where
  "getGlobalManifest pf assets request pfx st =
     (case globalManifestCache st of
        Some cached \<Rightarrow> (Inr cached, st)
      | None \<Rightarrow>
          try_catch
            (await (format_url pf (or_default pfx MARKDOWN_CONFIG_PREFIX @ ''-manifest.json'') request)
               (\<lambda>manifestUrl.
                  await (fetch_json pf (parse_manifest pf) manifestUrl assets)
                    (\<lambda>globalManifest st'.
                       (Inr globalManifest, st'\<lparr>globalManifestCache := Some globalManifest\<rparr>))))
            \<lparr>documents = [], chunkedFolders = None, buildMode = Single\<rparr>
            st)"

text \<open>\<open>({ _mtime, _size, ...item }) => item\<close>\<close>

definition strip_build_metadata :: "js_object \<Rightarrow> js_object" where
  "strip_build_metadata doc = filter (\<lambda>(key, v). key \<noteq> ''_mtime'' \<and> key \<noteq> ''_size'') doc"

definition getMarkdownManifest ::
  "'b platform \<Rightarrow> 'b fetcher \<Rightarrow> string option \<Rightarrow> string option \<Rightarrow> js_object list action" where
  "getMarkdownManifest pf assets request pfx st =
     (case manifestCache st of
        Some cached \<Rightarrow> (Inr cached, st)
      | None \<Rightarrow>
          await (getGlobalManifest pf assets request pfx)
            (\<lambda>globalManifest st'.
               (let cleanManifest = map strip_build_metadata (documents globalManifest)
                in (Inr cleanManifest, st'\<lparr>manifestCache := Some cleanManifest\<rparr>)))
            st)"

subsection \<open>Content functions\<close>

definition getMarkdownContent ::
  "'b platform \<Rightarrow> 'b fetcher \<Rightarrow> string option \<Rightarrow> string option \<Rightarrow> content_map action" where
  "getMarkdownContent pf assets request pfx =
     await (getGlobalManifest pf assets request pfx)
       (\<lambda>globalManifest st.
          if buildMode globalManifest = Chunked then (Inr [], st)
          else (case contentCache st of
                  Some cached \<Rightarrow> (Inr cached, st)
                | None \<Rightarrow>
                    try_catch
                      (await (format_url pf (or_default pfx MARKDOWN_CONFIG_PREFIX @ ''-content.json'') request)
                         (\<lambda>contentUrl.
                            await (fetch_json pf (parse_content pf) contentUrl assets)
                              (\<lambda>fetched st'. (Inr fetched, st'\<lparr>contentCache := Some fetched\<rparr>))))
                      []
                      st))"

text \<open>\<open>folder.replace(/[/\\]/g, '-')\<close>\<close>

definition folderKey_of :: "string \<Rightarrow> string" where
  "folderKey_of folder = map (\<lambda>c. if c = CHR ''/'' \<or> c = CHR 0x5C then CHR ''-'' else c) folder"

text \<open>
  \<open>loadFolderContent\<close>. The manifest comes from JSON, so the \<open>folder\<close> it is called with can be
  a number; then \<open>folder.replace\<close> is a \<open>TypeError\<close> inside the \<open>try\<close>, and the cache, which
  only ever gets string keys, has no entry for it.
\<close>

definition loadFolderContent ::
  "jsval \<Rightarrow> 'b platform \<Rightarrow> 'b fetcher \<Rightarrow> string option \<Rightarrow> string option \<Rightarrow> content_map action" where
  "loadFolderContent folder pf assets request pfx st =
     (case folder of
        JNum _ \<Rightarrow> (Inr [], st)
      | JStr name \<Rightarrow>
          (case folderContentCache st name of
             Some cachedContent \<Rightarrow> (Inr cachedContent, st)
           | None \<Rightarrow>
               try_catch
                 (await (format_url pf
                           (or_default pfx MARKDOWN_CONFIG_PREFIX @ ''-content-'' @ folderKey_of name @ ''.json'')
                           request)
                    (\<lambda>contentUrl.
                       await (fetch_json pf (parse_content pf) contentUrl assets)
                         (\<lambda>fetched st'.
                            (Inr fetched,
                             st'\<lparr>folderContentCache := (folderContentCache st')(name \<mapsto> fetched)\<rparr>))))
                 []
                 st))"

text \<open>\<open>docMeta.folder || 'root'\<close>: \<open>undefined\<close>, the empty string and 0 are falsy.\<close>

definition folder_or_root :: "jsval option \<Rightarrow> jsval" where
  "folder_or_root v =
     (case v of
        None \<Rightarrow> JStr ''root''
      | Some (JStr f) \<Rightarrow> if f = [] then JStr ''root'' else JStr f
      | Some (JNum n) \<Rightarrow> if n = 0 then JStr ''root'' else JNum n)"

definition getMarkdownDocument ::
  "string \<Rightarrow> 'b platform \<Rightarrow> 'b fetcher \<Rightarrow> string option \<Rightarrow> string option
     \<Rightarrow> MarkdownContent lookup action" where
  "getMarkdownDocument slug pf assets request pfx =
     await (getGlobalManifest pf assets request pfx)
       (\<lambda>globalManifest.
          if buildMode globalManifest = Chunked then
            await (getMarkdownManifest pf assets request pfx)
              (\<lambda>manifest.
                 case find (\<lambda>doc. map_of doc ''slug'' = Some (JStr slug)) manifest of
                   None \<Rightarrow> return Null
                 | Some docMeta \<Rightarrow>
                     await (loadFolderContent (folder_or_root (map_of docMeta ''folder'')) pf assets request pfx)
                       (\<lambda>folderContent. return (index_or_null folderContent slug)))
          else
            await (getMarkdownContent pf assets request pfx)
              (\<lambda>all_content. return (index_or_null all_content slug)))"

subsection \<open>Utility functions\<close>



subsection \<open>The module in use\<close>




text \<open>
  A value is successfully fetched for a file name when the URL can be formatted and
  \<open>fetchContent\<close> returns the value for it.
\<close>

definition fetched ::
  "'b platform \<Rightarrow> ('b \<Rightarrow> string + 'j) \<Rightarrow> string \<Rightarrow> 'b fetcher \<Rightarrow> string option \<Rightarrow> 'j \<Rightarrow> bool" where
  "fetched pf parse filename assets request j =
     (case formatAssetUrl (resolve_url pf) filename request None of
        None \<Rightarrow> False
      | Some url \<Rightarrow> fst (fetchContent (gunzip pf) parse url assets) = Inr j)"



definition total :: "'a action \<Rightarrow> bool" where
  "total m = (\<forall>st. \<exists>x st'. m st = (Inr x, st'))"

section \<open>The build plugin (plugins/markdown-plugin.ts)\<close>

subsection \<open>Maps\<close>

text \<open>
  A JavaScript \<open>Map\<close> is a list of entries with distinct keys, in insertion order, which is
  the order \<open>for ... of\<close> iterates in. \<open>set\<close> on a present key replaces the value in place.
\<close>

definition js_map_set :: "('k \<times> 'v) list \<Rightarrow> 'k \<Rightarrow> 'v \<Rightarrow> ('k \<times> 'v) list" where
  "js_map_set m k v =
     (if map_of m k = None then m @ [(k, v)]
      else map (\<lambda>(k', v'). if k' = k then (k', v) else (k', v')) m)"

text \<open>\<open>new Map(pairs)\<close>\<close>

definition js_map_new :: "('k \<times> 'v) list \<Rightarrow> ('k \<times> 'v) list" where
  "js_map_new pairs = foldl (\<lambda>m (k, v). js_map_set m k v) [] pairs"

subsection \<open>The source tree\<close>

text \<open>
  What \<open>readdir\<close> with \<open>withFileTypes\<close> and \<open>stat\<close> report below the source directory: a file
  with its name, modification time (milliseconds) and size, or a directory with its name and
  entries. \<open>path.join(current, name)\<close> appends \<open>/name\<close>, and \<open>path.relative(dir, full)\<close> of a
  path below \<open>dir\<close> drops \<open>dir/\<close>.
\<close>

record FileMetadata =
  mtime :: int
  file_size :: int

record file_info =
  path :: string
  metadata :: FileMetadata

datatype dirent = File string FileMetadata | Directory string "dirent list"

type_synonym file_map = "(string \<times> file_info) list"

definition path_join :: "string \<Rightarrow> string \<Rightarrow> string" where
  "path_join current name = current @ ''/'' @ name"

definition path_relative :: "string \<Rightarrow> string \<Rightarrow> string" where
  "path_relative dir full = drop (Suc (length dir)) full"

text \<open>
  \<open>path.dirname\<close> of a relative path as the walk produces them (no empty component): \<open>.\<close>
  when there is no separator, otherwise what precedes the last one.
\<close>

definition path_dirname :: "string \<Rightarrow> string" where
  "path_dirname p =
     (if CHR ''/'' \<notin> set p then ''.''
      else rev (tl (dropWhile (\<lambda>c. c \<noteq> CHR ''/'') (rev p))))"

text \<open>
  \<open>walk\<close> inside \<open>collectMarkdownFilesWithMetadata\<close>. The callbacks of one directory run
  concurrently and the order in which their \<open>stat\<close> calls finish decides the insertion order;
  the model inserts in listing order, depth first.
\<close>

fun walk :: "string \<Rightarrow> string \<Rightarrow> string \<Rightarrow> dirent list \<Rightarrow> file_map \<Rightarrow> file_map"
  and visit :: "string \<Rightarrow> string \<Rightarrow> string \<Rightarrow> dirent \<Rightarrow> file_map \<Rightarrow> file_map" where
  "walk extension dir current [] result = result"
| "walk extension dir current (entry # rest) result =
     walk extension dir current rest (visit extension dir current entry result)"
| "visit extension dir current (Directory name children) result =
     walk extension dir (path_join current name) children result"
| "visit extension dir current (File name stats) result =
     (if \<not> suffix extension name then result
      else js_map_set result (path_relative dir (path_join current name))
             \<lparr>path = path_join current name, metadata = stats\<rparr>)"

definition collectMarkdownFilesWithMetadata :: "string \<Rightarrow> string \<Rightarrow> dirent list \<Rightarrow> file_map" where
  "collectMarkdownFilesWithMetadata extension dir tree = walk extension dir dir tree []"

text \<open>The folder key of a relative path: \<open>root\<close> for a top-level file.\<close>

definition folder_key :: "string \<Rightarrow> string" where
  "folder_key relPath = (if path_dirname relPath = ''.'' then ''root'' else path_dirname relPath)"

definition collectFilesByFolder :: "string \<Rightarrow> string \<Rightarrow> dirent list \<Rightarrow> (string \<times> file_map) list" where
  "collectFilesByFolder extension dir tree =
     foldl (\<lambda>folderMap (relPath, fileInfo).
              js_map_set folderMap (folder_key relPath)
                (js_map_set (case map_of folderMap (folder_key relPath) of None \<Rightarrow> [] | Some files \<Rightarrow> files)
                   relPath fileInfo))
       [] (collectMarkdownFilesWithMetadata extension dir tree)"

subsection \<open>Change detection\<close>

definition isFileChanged :: "js_object option \<Rightarrow> FileMetadata \<Rightarrow> bool" where
  "isFileChanged prev current =
     (case prev of
        None \<Rightarrow> True
      | Some p \<Rightarrow> map_of p ''_mtime'' \<noteq> Some (JNum (mtime current))
                 \<or> map_of p ''_size'' \<noteq> Some (JNum (file_size current)))"

text \<open>
  \<open>checkForChanges\<close>. It sees the directory listing with the \<open>stat\<close> results and the previous
  manifest; it reads no file. The keys of \<open>previousMap\<close> are the \<open>path\<close> properties of the
  previous entries, whatever they are.
\<close>

definition checkForChanges ::
  "string \<Rightarrow> string \<Rightarrow> dirent list \<Rightarrow> js_object list \<Rightarrow> bool \<times> file_map" where
  "checkForChanges extension dir tree previous =
     (let previousMap = js_map_new (map (\<lambda>entry. (map_of entry ''path'', entry)) previous);
          currentFiles = collectMarkdownFilesWithMetadata extension dir tree
      in if list_ex (\<lambda>(relPath, info).
                       isFileChanged (map_of previousMap (Some (JStr relPath))) (metadata info))
              currentFiles
         then (True, currentFiles)
         else if length previous \<noteq> length currentFiles then (True, currentFiles)
         else (False, currentFiles))"

subsection \<open>Frontmatter\<close>

text \<open>
  \<open>parseFrontmatter\<close> matches \<open>/^---\s*\n(.*?)\n---\s*\n(.*)$/s\<close>. The matcher below follows the
  backtracking order of the expression. \<open>ws_newline_splits s\<close> lists what can follow a match
  of \<open>\s*\n\<close> at the start of \<open>s\<close>, the longest \<open>\s*\<close> first.
\<close>

definition ws_newline_splits :: "string \<Rightarrow> string list" where
  "ws_newline_splits s =
     (let w = takeWhile is_js_space s
      in map (\<lambda>i. drop (Suc i) s) (filter (\<lambda>i. w ! i = CHR 0x0A) (rev [0..<length w])))"

text \<open>
  The lazy group: the shortest text, starting where \<open>seen\<close> (reversed) began, that is followed
  by \<open>\n---\s*\n\<close>; the rest of the input is the second group.
\<close>

fun find_closing :: "string \<Rightarrow> string \<Rightarrow> (string \<times> string) option" where
  "find_closing seen [] = None"
| "find_closing seen (c # cs) =
     (if prefix [CHR 0x0A, CHR ''-'', CHR ''-'', CHR ''-''] (c # cs) then
        (case ws_newline_splits (drop 4 (c # cs)) of
           rest # _ \<Rightarrow> Some (rev seen, rest)
         | [] \<Rightarrow> find_closing (c # seen) cs)
      else find_closing (c # seen) cs)"

fun first_some :: "('a \<Rightarrow> 'b option) \<Rightarrow> 'a list \<Rightarrow> 'b option" where
  "first_some f [] = None"
| "first_some f (x # xs) = (case f x of Some y \<Rightarrow> Some y | None \<Rightarrow> first_some f xs)"

definition match_frontmatter :: "string \<Rightarrow> (string \<times> string) option" where
  "match_frontmatter s =
     (if prefix ''---'' s then first_some (find_closing []) (ws_newline_splits (drop 3 s)) else None)"

text \<open>\<open>s.split(sep)\<close> for a separator of one character.\<close>

fun js_split :: "char \<Rightarrow> string \<Rightarrow> string list" where
  "js_split sep [] = [[]]"
| "js_split sep (c # cs) =
     (if c = sep then [] # js_split sep cs
      else (case js_split sep cs of l # ls \<Rightarrow> (c # l) # ls | [] \<Rightarrow> [[c]]))"

text \<open>\<open>value.replace(/^['"]|['"]$/g, '')\<close>: one quote off the front, then one off the end.\<close>

definition is_quote :: "char \<Rightarrow> bool" where
  "is_quote c = (c = CHR 0x27 \<or> c = CHR 0x22)"

definition strip_quotes :: "string \<Rightarrow> string" where
  "strip_quotes v =
     (let v1 = (case v of c # cs \<Rightarrow> if is_quote c then cs else v | [] \<Rightarrow> [])
      in if v1 \<noteq> [] \<and> is_quote (last v1) then butlast v1 else v1)"

definition is_digit :: "char \<Rightarrow> bool" where
  "is_digit c = (c \<in> set ''0123456789'')"

text \<open>\<open>/^\d{4}-\d{2}-\d{2}$/\<close>\<close>

definition is_date_pattern :: "string \<Rightarrow> bool" where
  "is_date_pattern s =
     (length s = 10 \<and> list_all is_digit (take 4 s) \<and> s ! 4 = CHR ''-''
      \<and> list_all is_digit (take 2 (drop 5 s)) \<and> s ! 7 = CHR ''-''
      \<and> list_all is_digit (drop 8 s))"

text \<open>
  \<open>obj[key] = v\<close> on a plain object. Assigning a string or an object to \<open>__proto__\<close> creates
  no own property.
\<close>

definition obj_set :: "(string \<times> 'v) list \<Rightarrow> string \<Rightarrow> 'v \<Rightarrow> (string \<times> 'v) list" where
  "obj_set obj key v = (if key = ''__proto__'' then obj else js_map_set obj key v)"

text \<open>
  One line of the frontmatter block. \<open>normalize_date\<close> is \<open>new Date(v).toISOString().split('T')[0]\<close>,
  which belongs to the platform and throws a \<open>RangeError\<close> on an invalid date (\<open>None\<close>).
\<close>

definition parse_line ::
  "(string \<Rightarrow> string option) \<Rightarrow> string \<Rightarrow> (string \<times> string) list
     \<Rightarrow> string + (string \<times> string) list" where
  "parse_line normalize_date line fm =
     (let colonIndex = length (takeWhile (\<lambda>c. c \<noteq> CHR '':'') line)
      in if CHR '':'' \<in> set line \<and> colonIndex > 0 then
           (let key = js_trim (take colonIndex line);
                v = js_trim (drop (Suc colonIndex) line);
                cleanValue = strip_quotes v
            in if key = ''date'' \<and> is_date_pattern cleanValue then
                 (case normalize_date cleanValue of
                    None \<Rightarrow> Inl ''Invalid time value''
                  | Some d \<Rightarrow> Inr (obj_set fm key d))
               else Inr (obj_set fm key cleanValue))
         else Inr fm)"

fun parse_lines ::
  "(string \<Rightarrow> string option) \<Rightarrow> string list \<Rightarrow> (string \<times> string) list
     \<Rightarrow> string + (string \<times> string) list" where
  "parse_lines normalize_date [] fm = Inr fm"
| "parse_lines normalize_date (line # rest) fm =
     (case parse_line normalize_date line fm of
        Inl e \<Rightarrow> Inl e
      | Inr fm' \<Rightarrow> parse_lines normalize_date rest fm')"

text \<open>
  What \<open>parseFrontmatter\<close> returns: \<open>data\<close> and \<open>content\<close>, both \<open>undefined\<close> in the branch that
  returns the empty \<open>frontmatter\<close> object itself.
\<close>

record parsed =
  data :: "(string \<times> string) list option"
  markdown :: "string option"

definition parseFrontmatter :: "(string \<Rightarrow> string option) \<Rightarrow> string \<Rightarrow> string + parsed" where
  "parseFrontmatter normalize_date text =
     (case match_frontmatter text of
        None \<Rightarrow> Inr \<lparr>data = Some [], markdown = Some text\<rparr>
      | Some (frontmatterText, after) \<Rightarrow>
          if frontmatterText = [] then Inr \<lparr>data = None, markdown = None\<rparr>
          else
            (case parse_lines normalize_date
                    (filter (\<lambda>line. js_trim line \<noteq> []) (js_split (CHR 0x0A) frontmatterText)) [] of
               Inl e \<Rightarrow> Inl e
             | Inr fm \<Rightarrow> Inr \<lparr>data = Some fm, markdown = Some after\<rparr>))"

text \<open>
  \<open>Object.entries\<close> lists the properties that are array indices first, in ascending order,
  and then the others in creation order.
\<close>

definition digits_value :: "string \<Rightarrow> int" where
  "digits_value s = foldl (\<lambda>n c. 10 * n + (of_char c - 48)) 0 s"

definition is_array_index :: "string \<Rightarrow> bool" where
  "is_array_index k =
     (k = ''0''
      \<or> (k \<noteq> [] \<and> list_all is_digit k \<and> hd k \<noteq> CHR ''0'' \<and> length k \<le> 10
          \<and> digits_value k \<le> 4294967294))"

definition object_entries :: "(string \<times> 'v) list \<Rightarrow> (string \<times> 'v) list" where
  "object_entries obj =
     sort_key (\<lambda>(k, v). digits_value k) (filter (\<lambda>(k, v). is_array_index k) obj)
     @ filter (\<lambda>(k, v). \<not> is_array_index k) obj"

text \<open>\<open>lines.join('\n')\<close>\<close>

fun join_lines :: "string list \<Rightarrow> string" where
  "join_lines [] = []"
| "join_lines [l] = l"
| "join_lines (l # ls) = l @ [CHR 0x0A] @ join_lines ls"

subsection \<open>Options, platform and file system of a build\<close>

text \<open>The options of \<open>markdownBuilder\<close> after the defaults of \<open>MARKDOWN_CONFIG\<close> are applied.\<close>

record options =
  source :: string
  extension :: string
  chunkByFolder :: bool
  incrementalByFolder :: bool
  name_prefix :: string
  purifyHtml :: bool
  updateDate :: bool
  compress :: bool

definition default_options :: "string \<Rightarrow> options" where
  "default_options src =
     \<lparr>source = src, extension = ''.md'', chunkByFolder = True, incrementalByFolder = False,
      name_prefix = ''markdown'', purifyHtml = True, updateDate = True, compress = True\<rparr>"

text \<open>
  What the libraries and the runtime do for the build:
  \<^item> \<open>marked_parse\<close>: \<open>marked.parse\<close>, \<open>Inl\<close> the message when it throws;
  \<^item> \<open>sanitize\<close>: \<open>DOMPurify.sanitize\<close>;
  \<^item> \<open>highlighter\<close>: \<open>highlightCodeBlocks\<close> with the highlighter that \<open>initializeHighlighter\<close> set
    up, \<open>None\<close> when there is none; \<open>Inl\<close> is its error;
  \<^item> \<open>iso_date\<close>: \<open>new Date(ms).toISOString().split('T')[0]\<close>;
  \<^item> \<open>normalize_date\<close>: the same for a date string, \<open>None\<close> when it throws;
  \<^item> \<open>strip_extension\<close>: \<open>relPath.replace(new RegExp(`${extension}$`), '')\<close>, \<open>None\<close> when the
    extension is not a valid regular expression;
  \<^item> \<open>sortManifest\<close>: \<open>sortManifest\<close>, whose comparator rests on \<open>localeCompare\<close>, \<open>Date\<close> and
    \<open>Array.prototype.sort\<close>.
\<close>

record build_env =
  marked_parse :: "string \<Rightarrow> string + string"
  sanitize :: "string \<Rightarrow> string"
  highlighter :: "(string \<Rightarrow> string + string) option"
  iso_date :: "int \<Rightarrow> string"
  normalize_date :: "string \<Rightarrow> string option"
  strip_extension :: "string \<Rightarrow> string \<Rightarrow> string option"
  sortManifest :: "js_object list \<Rightarrow> js_object list"

text \<open>
  What \<open>new RegExp(`${extension}$`)\<close> does when the extension has no syntax character other
  than the dot: every character stands for itself, a dot for any character but a line
  terminator, and the only possible match is the end of the path. Other extensions are not
  covered (\<open>None\<close>).
\<close>

definition regexp_plain :: "string \<Rightarrow> bool" where
  "regexp_plain pattern = list_all (\<lambda>c. c \<notin> set ''^$*+?()[]{}|'' \<and> c \<noteq> CHR 0x5C) pattern"

definition regexp_char_matches :: "char \<Rightarrow> char \<Rightarrow> bool" where
  "regexp_char_matches c p = (if p = CHR ''.'' then c \<noteq> CHR 0x0A \<and> c \<noteq> CHR 0x0D else c = p)"

definition strip_plain_extension :: "string \<Rightarrow> string \<Rightarrow> string option" where
  "strip_plain_extension ext relPath =
     (if \<not> regexp_plain ext then None
      else if length ext \<le> length relPath
              \<and> list_all2 regexp_char_matches (drop (length relPath - length ext) relPath) ext
           then Some (take (length relPath - length ext) relPath)
           else Some relPath)"

text \<open>
  The file system: the listing below the source directory (\<open>None\<close> when the directory does
  not exist), the text of the source files by path, the files of the asset directory by
  name, and which files can be written. \<open>reads\<close> is not part of the file system: it records
  the source paths passed to \<open>readFile\<close>, in order.
\<close>

record file_system =
  source_tree :: "dirent list option"
  contents :: "string \<rightharpoonup> string"
  outputs :: "string \<rightharpoonup> artifact"
  writable :: "string \<Rightarrow> bool"
  reads :: "string list"

definition readFile :: "file_system \<Rightarrow> string \<Rightarrow> (string + string) \<times> file_system" where
  "readFile fs p =
     (case contents fs p of None \<Rightarrow> Inl ''ENOENT: no such file or directory'' | Some t \<Rightarrow> Inr t,
      fs\<lparr>reads := reads fs @ [p]\<rparr>)"

text \<open>\<open>writeFile\<close> on a source file and on a file of the asset directory; \<open>None\<close> when it throws.\<close>

definition writeFile :: "file_system \<Rightarrow> string \<Rightarrow> string \<Rightarrow> file_system option" where
  "writeFile fs p t = (if writable fs p then Some (fs\<lparr>contents := (contents fs)(p \<mapsto> t)\<rparr>) else None)"

definition writeAsset :: "file_system \<Rightarrow> string \<Rightarrow> artifact \<Rightarrow> file_system option" where
  "writeAsset fs name a = (if writable fs name then Some (fs\<lparr>outputs := (outputs fs)(name \<mapsto> a)\<rparr>) else None)"

subsection \<open>Processing a file\<close>

text \<open>
  \<open>updateFrontmatterDate\<close>. \<open>parseFrontmatter\<close> is called outside its \<open>try\<close>, so its error
  propagates (\<open>Inl\<close>). \<open>utimes\<close> restores the modification time, so the listing is unchanged.
\<close>

definition updateFrontmatterDate ::
  "options \<Rightarrow> build_env \<Rightarrow> file_system \<Rightarrow> string \<Rightarrow> string \<Rightarrow> int \<Rightarrow> string + (string \<times> file_system)" where
  "updateFrontmatterDate opts env fs filePath text fileMtime =
     (if \<not> updateDate opts then Inr (text, fs)
      else
        (case parseFrontmatter (normalize_date env) text of
           Inl e \<Rightarrow> Inl e
         | Inr p \<Rightarrow>
             (case data p of
                None \<Rightarrow> Inr (text, fs)
              | Some fm \<Rightarrow>
                  (let fileDate = iso_date env fileMtime
                   in if map_of fm ''date'' = Some fileDate then Inr (text, fs)
                      else
                        (let updatedFrontmatter = js_map_set (object_entries fm) ''date'' fileDate;
                             frontmatterStr =
                               join_lines (map (\<lambda>(k, v). k @ '': '' @ [CHR 0x22] @ v @ [CHR 0x22])
                                             (object_entries updatedFrontmatter));
                             updatedContent =
                               ''---'' @ [CHR 0x0A] @ frontmatterStr @ [CHR 0x0A] @ ''---'' @ [CHR 0x0A]
                               @ (case markdown p of Some m \<Rightarrow> m | None \<Rightarrow> ''undefined'')
                         in case writeFile fs filePath updatedContent of
                              None \<Rightarrow> Inr (text, fs)
                            | Some fs' \<Rightarrow> Inr (updatedContent, fs'))))))"

text \<open>\<open>processMarkdownFile\<close> returns \<open>content\<close> and \<open>error\<close>; its \<open>catch\<close> turns a throw into an error.\<close>

definition processMarkdownFile ::
  "options \<Rightarrow> build_env \<Rightarrow> file_system \<Rightarrow> string \<Rightarrow> (string \<times> string option) \<times> file_system" where
  "processMarkdownFile opts env fs filePath =
     (case readFile fs filePath of
        (Inl e, fs') \<Rightarrow> (([], Some e), fs')
      | (Inr source_text, fs') \<Rightarrow>
          (case parseFrontmatter (normalize_date env) source_text of
             Inl e \<Rightarrow> (([], Some e), fs')
           | Inr p \<Rightarrow>
               (case marked_parse env (case markdown p of Some m \<Rightarrow> m | None \<Rightarrow> []) of
                  Inl e \<Rightarrow> (([], Some e), fs')
                | Inr htmlContent \<Rightarrow>
                    (case highlighter env of
                       None \<Rightarrow>
                         ((if purifyHtml opts then sanitize env htmlContent else htmlContent, None), fs')
                     | Some highlightCodeBlocks \<Rightarrow>
                         (case highlightCodeBlocks htmlContent of
                            Inl e \<Rightarrow> (([], Some e), fs')
                          | Inr highlighted \<Rightarrow> ((highlighted, None), fs'))))))"

text \<open>What the handler of \<open>processChangedFiles\<close> and \<open>processFolderFiles\<close> accumulates.\<close>

record processing =
  manifest_acc :: "js_object list"
  content_acc :: content_map
  errorCount :: nat

definition failed :: "processing \<Rightarrow> processing" where
  "failed acc = acc\<lparr>errorCount := Suc (errorCount acc)\<rparr>"

text \<open>
  The object literal \<open>{ slug, path: relPath, folder, _mtime, _size, ...validFrontmatter }\<close>: the
  frontmatter is spread last, so each of its properties replaces the property of that name.
\<close>

definition manifest_entry ::
  "string \<Rightarrow> string \<Rightarrow> string option \<Rightarrow> FileMetadata \<Rightarrow> (string \<times> string) list \<Rightarrow> js_object" where
  "manifest_entry slug relPath folder m validFrontmatter =
     foldl (\<lambda>obj (k, v). js_map_set obj k (JStr v))
       ([(''slug'', JStr slug), (''path'', JStr relPath)]
        @ (case folder of None \<Rightarrow> [] | Some f \<Rightarrow> [(''folder'', JStr f)])
        @ [(''_mtime'', JNum (mtime m)), (''_size'', JNum (file_size m))])
       (object_entries validFrontmatter)"

text \<open>
  The handler, with its \<open>try\<close> and \<open>catch\<close>: every failure counts one error and adds nothing.
  \<open>if (error)\<close> is false for an empty message.
\<close>

definition process_file ::
  "options \<Rightarrow> build_env \<Rightarrow> string \<times> file_info \<Rightarrow> file_system \<times> processing
     \<Rightarrow> file_system \<times> processing" where
  "process_file opts env entry state =
     (case (entry, state) of ((relPath, info), (fs, acc)) \<Rightarrow>
        (case readFile fs (path info) of
           (Inl _, fs1) \<Rightarrow> (fs1, failed acc)
         | (Inr raw, fs1) \<Rightarrow>
             (case updateFrontmatterDate opts env fs1 (path info) raw (mtime (metadata info)) of
                Inl _ \<Rightarrow> (fs1, failed acc)
              | Inr (updated, fs2) \<Rightarrow>
                  (case parseFrontmatter (normalize_date env) updated of
                     Inl _ \<Rightarrow> (fs2, failed acc)
                   | Inr p \<Rightarrow>
                       (case processMarkdownFile opts env fs2 (path info) of
                          ((html, err), fs3) \<Rightarrow>
                            if (case err of Some e \<Rightarrow> e \<noteq> [] | None \<Rightarrow> False) then (fs3, failed acc)
                            else
                              (case strip_extension env (extension opts) relPath of
                                 None \<Rightarrow> (fs3, failed acc)
                               | Some slug \<Rightarrow>
                                   (let folder = (if path_dirname relPath = ''.'' then None
                                                  else Some (path_dirname relPath));
                                        validFrontmatter = (case data p of None \<Rightarrow> [] | Some fm \<Rightarrow> fm)
                                    in (fs3,
                                        acc\<lparr>manifest_acc := manifest_acc acc
                                               @ [manifest_entry slug relPath folder (metadata info) validFrontmatter],
                                            content_acc := obj_set (content_acc acc) slug
                                               \<lparr>frontmatter = map (\<lambda>(k, v). (k, JStr v)) validFrontmatter,
                                                content = html\<rparr>\<rparr>))))))))"

text \<open>
  \<open>execConcurrently\<close> starts the handlers in the order of the entries. Each handler changes
  the shared arrays only after its last \<open>await\<close>, so the handlers are run here one after the
  other, in that order.
\<close>

definition process_entries ::
  "options \<Rightarrow> build_env \<Rightarrow> file_map \<Rightarrow> file_system \<Rightarrow> file_system \<times> processing" where
  "process_entries opts env files fs =
     foldl (\<lambda>state entry. process_file opts env entry state)
       (fs, \<lparr>manifest_acc = [], content_acc = [], errorCount = 0\<rparr>) files"

record ProcessingResult =
  result_manifest :: "js_object list"
  result_content :: content_map
  processedCount :: nat
  result_errors :: nat

definition processChangedFiles ::
  "options \<Rightarrow> build_env \<Rightarrow> file_map \<Rightarrow> file_system \<Rightarrow> ProcessingResult \<times> file_system" where
  "processChangedFiles opts env files fs =
     (case process_entries opts env files fs of
        (fs', acc) \<Rightarrow>
          (\<lparr>result_manifest = sortManifest env (manifest_acc acc), result_content = content_acc acc,
            processedCount = length (manifest_acc acc), result_errors = errorCount acc\<rparr>, fs'))"

definition processFolderFiles ::
  "options \<Rightarrow> build_env \<Rightarrow> file_map \<Rightarrow> file_system \<Rightarrow> processing \<times> file_system" where
  "processFolderFiles opts env folderFiles fs =
     (case process_entries opts env folderFiles fs of
        (fs', acc) \<Rightarrow> (acc\<lparr>manifest_acc := sortManifest env (manifest_acc acc)\<rparr>, fs'))"

subsection \<open>Writing the artifacts\<close>

text \<open>
  The files of the asset directory are named by their file name; \<open>getAssetPath\<close> puts all of
  them into the one directory \<open>public/assets/docs\<close>. A failed write is caught and logged by
  each of the functions below.
\<close>

definition loadPreviousManifest :: "options \<Rightarrow> file_system \<Rightarrow> js_object list" where
  "loadPreviousManifest opts fs =
     (case outputs fs (name_prefix opts @ ''-manifest.json'') of
        Some (ManifestJson globalManifest) \<Rightarrow> documents globalManifest
      | _ \<Rightarrow> [])"

definition writeCompressedVersions :: "options \<Rightarrow> file_system \<Rightarrow> string \<Rightarrow> artifact \<Rightarrow> file_system" where
  "writeCompressedVersions opts fs filename json =
     (if \<not> compress opts then fs
      else (case writeAsset fs (filename @ ''.gz'') (Gzipped json) of None \<Rightarrow> fs | Some fs' \<Rightarrow> fs'))"

definition writeMarkdownFiles ::
  "options \<Rightarrow> file_system \<Rightarrow> js_object list \<Rightarrow> content_map \<Rightarrow> string list option \<Rightarrow> file_system" where
  "writeMarkdownFiles opts fs manifest_docs content_record folders =
     (let globalManifest =
            \<lparr>documents = manifest_docs,
             chunkedFolders = (if chunkByFolder opts then folders else None),
             buildMode = (if chunkByFolder opts then Chunked else Single)\<rparr>
      in case writeAsset fs (name_prefix opts @ ''-manifest.json'') (ManifestJson globalManifest) of
           None \<Rightarrow> fs
         | Some fs1 \<Rightarrow>
             if \<not> chunkByFolder opts \<and> content_record \<noteq> [] then
               (if compress opts then
                  writeCompressedVersions opts fs1 (name_prefix opts @ ''-content.json'') (ContentJson content_record)
                else
                  (case writeAsset fs1 (name_prefix opts @ ''-content.json'') (ContentJson content_record) of
                     None \<Rightarrow> fs1
                   | Some fs2 \<Rightarrow> fs2))
             else fs1)"

definition writeFolderFiles :: "options \<Rightarrow> file_system \<Rightarrow> string \<Rightarrow> content_map \<Rightarrow> file_system" where
  "writeFolderFiles opts fs folder content_record =
     (let filename = name_prefix opts @ ''-content-'' @ folderKey_of folder @ ''.json''
      in if compress opts then writeCompressedVersions opts fs filename (ContentJson content_record)
         else (case writeAsset fs filename (ContentJson content_record) of None \<Rightarrow> fs | Some fs' \<Rightarrow> fs'))"

subsection \<open>Folders\<close>

text \<open>
  \<open>checkForFolderChanges\<close>. The previous entries are grouped by \<open>meta.folder || 'root'\<close>;
  \<open>changedFolders\<close> is a \<open>Set\<close>, filled in the order of \<open>allFolders\<close>.
\<close>

definition group_previous :: "js_object list \<Rightarrow> (jsval \<times> (jsval option \<times> js_object) list) list" where
  "group_previous prevGlobalManifest =
     foldl (\<lambda>prevFilesByFolder meta.
              js_map_set prevFilesByFolder (folder_or_root (map_of meta ''folder''))
                (js_map_set (case map_of prevFilesByFolder (folder_or_root (map_of meta ''folder'')) of
                               None \<Rightarrow> [] | Some files \<Rightarrow> files)
                   (map_of meta ''path'') meta))
       [] prevGlobalManifest"

definition folder_changed ::
  "(jsval \<times> (jsval option \<times> js_object) list) list \<Rightarrow> string \<times> file_map \<Rightarrow> bool" where
  "folder_changed prevFilesByFolder entry =
     (case entry of (folder, files) \<Rightarrow>
        (case map_of prevFilesByFolder (JStr folder) of
           None \<Rightarrow> True
         | Some prevFiles \<Rightarrow>
             list_ex (\<lambda>(relPath, info).
                        isFileChanged (map_of prevFiles (Some (JStr relPath))) (metadata info)) files
             \<or> length prevFiles \<noteq> length files))"

definition checkForFolderChanges ::
  "options \<Rightarrow> file_system \<Rightarrow> string \<Rightarrow> dirent list \<Rightarrow> string list \<times> (string \<times> file_map) list" where
  "checkForFolderChanges opts fs dir tree =
     (let allFolders = collectFilesByFolder (extension opts) dir tree
      in if \<not> incrementalByFolder opts then (map fst allFolders, allFolders)
         else (map fst (filter (folder_changed (group_previous (loadPreviousManifest opts fs))) allFolders),
               allFolders))"

text \<open>
  \<open>processChangedFolders\<close>: per folder, process its files, write its content chunk, and add
  its entries to the global manifest. A folder that \<open>allFolders\<close> does not have makes the
  handler throw, which it catches and counts.
\<close>

record folders_progress =
  globalManifest_acc :: "js_object list"
  totalProcessed :: nat
  totalErrors :: nat

definition process_folder ::
  "options \<Rightarrow> build_env \<Rightarrow> (string \<times> file_map) list \<Rightarrow> string \<Rightarrow> file_system \<times> folders_progress
     \<Rightarrow> file_system \<times> folders_progress" where
  "process_folder opts env allFolders folder state =
     (case state of (fs, progress) \<Rightarrow>
        (case map_of allFolders folder of
           None \<Rightarrow> (fs, progress\<lparr>totalErrors := Suc (totalErrors progress)\<rparr>)
         | Some files \<Rightarrow>
             (case processFolderFiles opts env files fs of
                (result, fs1) \<Rightarrow>
                  (writeFolderFiles opts fs1 folder (content_acc result),
                   \<lparr>globalManifest_acc = globalManifest_acc progress @ manifest_acc result,
                    totalProcessed = totalProcessed progress + length (manifest_acc result),
                    totalErrors = totalErrors progress + errorCount result\<rparr>))))"

definition processChangedFolders ::
  "options \<Rightarrow> build_env \<Rightarrow> string list \<Rightarrow> (string \<times> file_map) list \<Rightarrow> file_system
     \<Rightarrow> folders_progress \<times> file_system" where
  "processChangedFolders opts env changedFolders allFolders fs =
     (case foldl (\<lambda>state folder. process_folder opts env allFolders folder state)
             (fs, \<lparr>globalManifest_acc = [], totalProcessed = 0, totalErrors = 0\<rparr>) changedFolders of
        (fs', progress) \<Rightarrow>
          (progress\<lparr>globalManifest_acc := sortManifest env (globalManifest_acc progress)\<rparr>, fs'))"

subsection \<open>buildStart\<close>

definition buildStart :: "options \<Rightarrow> build_env \<Rightarrow> string \<Rightarrow> file_system \<Rightarrow> file_system" where
  "buildStart opts env cwd fs =
     (case source_tree fs of
        None \<Rightarrow> fs
      | Some tree \<Rightarrow>
          (let docsDir = path_join cwd (source opts)
           in if chunkByFolder opts then
                (case checkForFolderChanges opts fs docsDir tree of
                   (changedFolders, allFolders) \<Rightarrow>
                     if changedFolders = [] then fs
                     else
                       (case processChangedFolders opts env changedFolders allFolders fs of
                          (result, fs1) \<Rightarrow>
                            writeMarkdownFiles opts fs1 (globalManifest_acc result) [] (Some (map fst allFolders))))
              else
                (case checkForChanges (extension opts) docsDir tree (loadPreviousManifest opts fs) of
                   (changed, updatedFiles) \<Rightarrow>
                     if \<not> changed then fs
                     else
                       (case processChangedFiles opts env updatedFiles fs of
                          (result, fs1) \<Rightarrow>
                            writeMarkdownFiles opts fs1 (result_manifest result) (result_content result) None))))"

subsection \<open>What changed since the last build\<close>

text \<open>
  The notions of the specification. The previous entry of a file is the entry of the
  previous manifest with the file's relative path (the last one, should there be several).
  A file's metadata changed when it has no previous entry or its \<open>mtime\<close> or size differs from
  the entry's \<open>_mtime\<close> or \<open>_size\<close>.
\<close>

definition previous_entry :: "js_object list \<Rightarrow> string \<Rightarrow> js_object option" where
  "previous_entry previous relPath =
     find (\<lambda>entry. map_of entry ''path'' = Some (JStr relPath)) (rev previous)"

definition metadata_changed :: "js_object list \<Rightarrow> string \<times> file_info \<Rightarrow> bool" where
  "metadata_changed previous file =
     (case file of (relPath, info) \<Rightarrow>
        (case previous_entry previous relPath of
           None \<Rightarrow> True
         | Some entry \<Rightarrow> map_of entry ''_mtime'' \<noteq> Some (JNum (mtime (metadata info)))
                        \<or> map_of entry ''_size'' \<noteq> Some (JNum (file_size (metadata info)))))"

text \<open>
  The previous entries of a folder are those whose \<open>folder\<close> (\<open>root\<close> when there is none) is
  the folder. A folder changed when it has no previous entry, or the metadata of one of its
  files changed relative to its previous entries, or the number of paths among its previous
  entries differs from the number of its files.
\<close>

definition previous_of_folder :: "js_object list \<Rightarrow> string \<Rightarrow> js_object list" where
  "previous_of_folder previous folder =
     filter (\<lambda>meta. folder_or_root (map_of meta ''folder'') = JStr folder) previous"

definition folder_metadata_changed :: "js_object list \<Rightarrow> string \<times> file_map \<Rightarrow> bool" where
  "folder_metadata_changed previous entry =
     (case entry of (folder, files) \<Rightarrow>
        previous_of_folder previous folder = []
        \<or> list_ex (metadata_changed (previous_of_folder previous folder)) files
        \<or> length (remdups (map (\<lambda>meta. map_of meta ''path'') (previous_of_folder previous folder)))
             \<noteq> length files)"

text \<open>The paths of the files of a list of entries.\<close>

definition paths_of :: "file_map \<Rightarrow> string set" where
  "paths_of files = (\<lambda>(relPath, info). path info) ` set files"

section \<open>The worker pool (execConcurrently)\<close>

text \<open>
  \<open>execConcurrently\<close> runs on one thread and gives way at each \<open>await\<close>; the promises of the
  handlers settle in between, in any order and either way. The state of a run:
  \<^item> \<open>todo\<close>: the items the \<open>for ... of\<close> loop has not reached;
  \<^item> \<open>started\<close>: the items the handler was invoked on, in order; invocation \<open>n\<close> is the one on
    \<open>started ! n\<close>;
  \<^item> \<open>executing\<close>: the array of that name, holding invocations;
  \<^item> \<open>settled\<close>: the invocations whose promise has settled, with the outcome, in the order
    of settling;
  \<^item> \<open>at\<close>: where the function stands.
  The limit is a whole number, as at the call sites, and the handler returns a promise without
  throwing first, as its type says and as the \<open>async\<close> functions passed at the call sites do.
\<close>

datatype outcome = Fulfilled | Rejected

datatype position =
    Loop          \<comment> \<open>at the head of the \<open>for ... of\<close> loop\<close>
  | Race          \<comment> \<open>awaiting \<open>Promise.race(executing).catch(...)\<close>\<close>
  | Drain nat     \<comment> \<open>\<open>Drain (Suc i)\<close>: awaiting \<open>executing[i]\<close> in the inner loop\<close>
  | Final         \<comment> \<open>awaiting \<open>Promise.allSettled(executing)\<close>\<close>
  | Done          \<comment> \<open>returned\<close>

record 'a pool =
  todo :: "'a list"
  started :: "'a list"
  executing :: "nat list"
  settled :: "(nat \<times> outcome) list"
  at :: position

definition is_settled :: "'a pool \<Rightarrow> nat \<Rightarrow> bool" where
  "is_settled s n = (n \<in> fst ` set (settled s))"

text \<open>The handler invocations that are pending: started and not settled.\<close>

definition pending :: "'a pool \<Rightarrow> nat set" where
  "pending s = {n. n < length (started s) \<and> \<not> is_settled s n}"

definition start_pool :: "'a list \<Rightarrow> 'a pool" where
  "start_pool items = \<lparr>todo = items, started = [], executing = [], settled = [], at = Loop\<rparr>"

text \<open>
  One step of a run. \<open>invoke\<close> is \<open>handler(item)\<close>, the \<open>push\<close> and the test of the length;
  \<open>race\<close>, \<open>drain\<close> and \<open>all_settled\<close> are the three awaits, each of which goes on
  whether the promise it waits for was fulfilled or rejected (the \<open>catch\<close> handlers and
  \<open>allSettled\<close>); \<open>settle\<close> is a pending handler settling.
\<close>

inductive step :: "nat \<Rightarrow> 'a pool \<Rightarrow> 'a pool \<Rightarrow> bool" for limit :: nat where
  invoke:
    "at s = Loop \<Longrightarrow> todo s = item # rest \<Longrightarrow>
     step limit s
       (s\<lparr>todo := rest, started := started s @ [item],
          executing := executing s @ [length (started s)],
          at := (if length (executing s) + 1 \<ge> limit then Race else Loop)\<rparr>)"
| finish_loop:
    "at s = Loop \<Longrightarrow> todo s = [] \<Longrightarrow> step limit s (s\<lparr>at := Final\<rparr>)"
| race:
    "at s = Race \<Longrightarrow> n \<in> set (executing s) \<Longrightarrow> is_settled s n \<Longrightarrow>
     step limit s (s\<lparr>at := Drain (length (executing s))\<rparr>)"
| drain:
    "at s = Drain (Suc i) \<Longrightarrow> i < length (executing s) \<Longrightarrow> is_settled s (executing s ! i) \<Longrightarrow>
     step limit s
       (s\<lparr>executing := take i (executing s) @ drop (Suc i) (executing s),
          at := (if i = 0 then Loop else Drain i)\<rparr>)"
| all_settled:
    "at s = Final \<Longrightarrow> list_all (is_settled s) (executing s) \<Longrightarrow> step limit s (s\<lparr>at := Done\<rparr>)"
| settle:
    "n \<in> pending s \<Longrightarrow> step limit s (s\<lparr>settled := settled s @ [(n, r)]\<rparr>)"

definition reachable :: "nat \<Rightarrow> 'a list \<Rightarrow> 'a pool \<Rightarrow> bool" where
  "reachable limit items s = (step limit)\<^sup>*\<^sup>* (start_pool items) s"

text \<open>What holds in every state of a run.\<close>

definition pool_inv :: "nat \<Rightarrow> 'a list \<Rightarrow> 'a pool \<Rightarrow> bool" where
  "pool_inv limit items s =
     (started s @ todo s = items
      \<and> pending s \<subseteq> set (executing s)
      \<and> set (executing s) \<subseteq> {..<length (started s)}
      \<and> length (executing s) \<le> limit
      \<and> (case at s of
            Loop \<Rightarrow> length (executing s) < limit
          | Race \<Rightarrow> executing s \<noteq> [] \<and> length (executing s) \<le> limit
          | Drain k \<Rightarrow> 0 < k \<and> length (executing s) = k \<and> k \<le> limit
          | Final \<Rightarrow> todo s = []
          | Done \<Rightarrow> todo s = [] \<and> pending s = {}))"

text \<open>The rank of a position, for the termination of a run.\<close>

definition rank :: "'a pool \<Rightarrow> nat" where
  "rank s =
     (case at s of
        Race \<Rightarrow> length (executing s) + 3
      | Drain k \<Rightarrow> k + 2
      | Loop \<Rightarrow> 2
      | Final \<Rightarrow> 1
      | Done \<Rightarrow> 0)"

section \<open>Example inputs\<close>



definition ex_platform :: "artifact platform" where
  "ex_platform =
     \<lparr>gunzip = (\<lambda>b. case b of Gzipped p \<Rightarrow> Some p | _ \<Rightarrow> None),
      parse_manifest = (\<lambda>b. case b of ManifestJson g \<Rightarrow> Inr g | _ \<Rightarrow> Inl ''Unexpected token''),
      parse_content = (\<lambda>b. case b of ContentJson c \<Rightarrow> Inr c | _ \<Rightarrow> Inl ''Unexpected token''),
      resolve_url = (\<lambda>url base. Some url)\<rparr>"

definition ok_response :: "artifact \<Rightarrow> string + artifact fetch_response" where
  "ok_response b = Inr \<lparr>ok = True, http_status = 200, statusText = ''OK'', body = b\<rparr>"

definition not_found :: "string + artifact fetch_response" where
  "not_found = Inr \<lparr>ok = False, http_status = 404, statusText = ''Not Found'', body = Other []\<rparr>"











text \<open>A source directory with two top-level documents and one in a folder.\<close>

definition ex_tree :: "dirent list" where
  "ex_tree =
     [File ''a.md'' \<lparr>mtime = 1000, file_size = 10\<rparr>,
      File ''b.md'' \<lparr>mtime = 2000, file_size = 20\<rparr>,
      File ''notes.txt'' \<lparr>mtime = 2500, file_size = 25\<rparr>,
      Directory ''guide'' [File ''intro.md'' \<lparr>mtime = 3000, file_size = 30\<rparr>]]"

text \<open>The manifest entry a build records for a file, without frontmatter.\<close>

definition ex_entry :: "string \<Rightarrow> string \<Rightarrow> string option \<Rightarrow> int \<Rightarrow> int \<Rightarrow> js_object" where
  "ex_entry slug p folder m s =
     [(''slug'', JStr slug), (''path'', JStr p)]
     @ (case folder of None \<Rightarrow> [] | Some f \<Rightarrow> [(''folder'', JStr f)])
     @ [(''_mtime'', JNum m), (''_size'', JNum s)]"

text \<open>A previous manifest that matches \<open>ex_tree\<close>, and one in which \<open>b.md\<close> was smaller.\<close>

definition ex_previous_same :: "js_object list" where
  "ex_previous_same =
     [ex_entry ''a'' ''a.md'' None 1000 10, ex_entry ''b'' ''b.md'' None 2000 20,
      ex_entry ''guide/intro'' ''guide/intro.md'' (Some ''guide'') 3000 30]"

definition ex_previous_b :: "js_object list" where
  "ex_previous_b =
     [ex_entry ''a'' ''a.md'' None 1000 10, ex_entry ''b'' ''b.md'' None 2000 19,
      ex_entry ''guide/intro'' ''guide/intro.md'' (Some ''guide'') 3000 30]"

text \<open>An empty project in which every file can be written.\<close>

definition empty_fs :: file_system where
  "empty_fs =
     \<lparr>source_tree = None, contents = Map.empty, outputs = Map.empty, writable = (\<lambda>p. True), reads = []\<rparr>"

text \<open>
  A platform for concrete builds: a converter that wraps the text in a paragraph, no
  highlighter, dates valid as written, every modification time on 2024-01-01, extensions
  without regular-expression syntax, and a sort that keeps the order.
\<close>

definition ex_env :: build_env where
  "ex_env =
     \<lparr>marked_parse = (\<lambda>md. Inr (''<p>'' @ md @ ''</p>'')),
      sanitize = (\<lambda>html. html),
      highlighter = None,
      iso_date = (\<lambda>ms. ''2024-01-01''),
      normalize_date = Some,
      strip_extension = strip_plain_extension,
      sortManifest = (\<lambda>docs. docs)\<rparr>"

text \<open>
  The project of \<open>ex_tree\<close> under \<open>/site/docs\<close>, with a given previous manifest in the asset
  directory.
\<close>

definition ex_project :: "js_object list \<Rightarrow> file_system" where
  "ex_project previous =
     \<lparr>source_tree = Some ex_tree,
      contents = [''/site/docs/a.md'' \<mapsto> ''# A'', ''/site/docs/b.md'' \<mapsto> ''# B'',
                  ''/site/docs/guide/intro.md'' \<mapsto> ''# Intro''],
      outputs = [''markdown-manifest.json'' \<mapsto>
                   ManifestJson \<lparr>documents = previous, chunkedFolders = None, buildMode = Single\<rparr>],
      writable = (\<lambda>p. True),
      reads = []\<rparr>"

definition single_options :: options where
  "single_options = (default_options ''docs'')\<lparr>chunkByFolder := False\<rparr>"

definition incremental_options :: options where
  "incremental_options = (default_options ''docs'')\<lparr>incrementalByFolder := True\<rparr>"

text \<open>
  A static server for what a build wrote: the files of the asset directory under
  \<open>/assets/docs/\<close>.
\<close>

definition serve_assets :: "(string \<rightharpoonup> artifact) \<Rightarrow> artifact fetcher" where
  "serve_assets files url =
     (if prefix ''/assets/docs/'' url then
        (case files (drop 13 url) of Some a \<Rightarrow> ok_response a | None \<Rightarrow> not_found)
      else not_found)"

text \<open>
  Two top-level documents whose frontmatter names the same \<open>slug\<close>, modified on 2024-01-01.
\<close>

definition slug_text :: "string \<Rightarrow> string" where
  "slug_text title = ''---\<newline>slug: x\<newline>date: 2024-01-01\<newline>---\<newline># '' @ title"

definition slug_project :: file_system where
  "slug_project =
     \<lparr>source_tree = Some [File ''a.md'' \<lparr>mtime = 1704067200000, file_size = 36\<rparr>,
                          File ''b.md'' \<lparr>mtime = 1704067200000, file_size = 36\<rparr>],
      contents = [''/site/docs/a.md'' \<mapsto> slug_text ''A'', ''/site/docs/b.md'' \<mapsto> slug_text ''B''],
      outputs = Map.empty,
      writable = (\<lambda>p. True),
      reads = []\<rparr>"

text \<open>A document in the folder \<open>guide\<close> whose frontmatter names another \<open>folder\<close>.\<close>

definition folder_text :: string where
  "folder_text = ''---\<newline>folder: misc\<newline>date: 2024-01-01\<newline>---\<newline># Intro''"

definition folder_project :: file_system where
  "folder_project =
     \<lparr>source_tree = Some [Directory ''guide'' [File ''intro.md'' \<lparr>mtime = 1704067200000, file_size = 45\<rparr>]],
      contents = [''/site/docs/guide/intro.md'' \<mapsto> folder_text],
      outputs = Map.empty,
      writable = (\<lambda>p. True),
      reads = []\<rparr>"

section \<open>Theorems\<close>

lemma documentSlugSchema_string:
  "documentSlugSchema (JsString s) = Inr t \<longleftrightarrow> (t = js_trim s \<and> slug_ok t)"
  by (auto simp: documentSlugSchema_def slug_ok_def Let_def)

text \<open>
  C9. For every input, \<open>validateDocumentSlug\<close> returns the trimmed input exactly when the
  input is a string whose trimmed form is non-empty, has only characters of
  \<open>[a-zA-Z0-9-_/]\<close>, does not contain \<open>..\<close> and neither starts nor ends with \<open>/\<close>; for every
  other input it throws a \<open>Response\<close> with status 400.
\<close>

theorem validateDocumentSlug_spec:
  "(case validateDocumentSlug x of
      Inr t \<Rightarrow> (\<exists>s. x = JsString s \<and> t = js_trim s \<and> slug_ok t)
    | Inl r \<Rightarrow> status r = 400 \<and> \<not> (\<exists>s. x = JsString s \<and> slug_ok (js_trim s)))"
proof (cases x)
  case (JsString s)
  show ?thesis
  proof (cases "slug_ok (js_trim s)")
    case True
    then have "documentSlugSchema (JsString s) = Inr (js_trim s)"
      by (simp add: documentSlugSchema_string)
    with True JsString show ?thesis
      by (simp add: validateDocumentSlug_def)
  next
    case False
    then have "\<And>t. documentSlugSchema (JsString s) \<noteq> Inr t"
      by (simp add: documentSlugSchema_string)
    then obtain issues where "documentSlugSchema (JsString s) = Inl issues"
      by (cases "documentSlugSchema (JsString s)") auto
    with False JsString show ?thesis
      by (simp add: validateDocumentSlug_def)
  qed
next
  case (JsOther r)
  then show ?thesis
    by (simp add: validateDocumentSlug_def documentSlugSchema_def)
qed

theorem validateDocumentSlug_spec_witness:
  "validateDocumentSlug (JsString '' guide/intro_1 '') = Inr ''guide/intro_1''
   \<and> (\<exists>r. validateDocumentSlug (JsString ''../etc'') = Inl r \<and> status r = 400)"
proof -
  have t: "js_trim '' guide/intro_1 '' = ''guide/intro_1''"
    by (simp add: js_trim_def is_js_space_def)
  have "slug_ok ''guide/intro_1''"
    by code_simp
  with t have a: "validateDocumentSlug (JsString '' guide/intro_1 '') = Inr ''guide/intro_1''"
    using validateDocumentSlug_spec [of "JsString '' guide/intro_1 ''"]
    by (auto split: sum.splits)
  have "\<not> slug_ok (js_trim ''../etc'')"
    by code_simp
  then have b: "\<exists>r. validateDocumentSlug (JsString ''../etc'') = Inl r \<and> status r = 400"
    using validateDocumentSlug_spec [of "JsString ''../etc''"]
    by (auto split: sum.splits)
  from a b show ?thesis by simp
qed

subsection \<open>fetchContent\<close>



subsection \<open>No function of the module rejects\<close>

lemma total_return: "total (return x)"
  by (simp add: total_def return_def)

lemma try_catch_Inr: "\<exists>x st'. try_catch m d st = (Inr x, st')"
  by (auto simp: try_catch_def split: prod.splits sum.splits)

lemma total_await: "total m \<Longrightarrow> (\<And>x. total (f x)) \<Longrightarrow> total (await m f)"
  unfolding total_def await_def
  by (metis (mono_tags, lifting) case_prod_conv sum.case(2))

lemma total_getGlobalManifest: "total (getGlobalManifest pf assets request pfx)"
  unfolding total_def
proof
  fix st
  show "\<exists>x st'. getGlobalManifest pf assets request pfx st = (Inr x, st')"
    by (cases "globalManifestCache st") (simp_all add: getGlobalManifest_def try_catch_Inr)
qed

lemma total_getMarkdownManifest: "total (getMarkdownManifest pf assets request pfx)"
  unfolding total_def
proof
  fix st
  have "total (await (getGlobalManifest pf assets request pfx)
            (\<lambda>globalManifest st'.
               (let cleanManifest = map strip_build_metadata (documents globalManifest)
                in (Inr cleanManifest, st'\<lparr>manifestCache := Some cleanManifest\<rparr>))))"
    by (rule total_await [OF total_getGlobalManifest]) (simp add: total_def Let_def)
  then show "\<exists>x st'. getMarkdownManifest pf assets request pfx st = (Inr x, st')"
    by (cases "manifestCache st") (auto simp: getMarkdownManifest_def total_def)
qed

lemma total_getMarkdownContent: "total (getMarkdownContent pf assets request pfx)"
  unfolding getMarkdownContent_def
  by (rule total_await [OF total_getGlobalManifest])
     (simp add: total_def try_catch_Inr split: option.splits)

lemma total_loadFolderContent: "total (loadFolderContent folder pf assets request pfx)"
  unfolding total_def
  by (simp add: loadFolderContent_def try_catch_Inr split: jsval.splits option.splits)

lemma total_getMarkdownDocument: "total (getMarkdownDocument slug pf assets request pfx)"
  unfolding getMarkdownDocument_def
  by (intro total_await total_getGlobalManifest total_getMarkdownManifest total_getMarkdownContent
        total_loadFolderContent total_return | simp split: option.splits | intro conjI impI allI)+

subsection \<open>The caches only grow until they are cleared\<close>






lemma getGlobalManifest_unfold:
  "getGlobalManifest pf assets request pfx st =
     (case globalManifestCache st of
        Some cached \<Rightarrow> (Inr cached, st)
      | None \<Rightarrow>
         (case formatAssetUrl (resolve_url pf) (or_default pfx MARKDOWN_CONFIG_PREFIX @ ''-manifest.json'') request None of
            None \<Rightarrow> (Inr \<lparr>documents = [], chunkedFolders = None, buildMode = Single\<rparr>, st)
          | Some url \<Rightarrow>
             (case fetchContent (gunzip pf) (parse_manifest pf) url assets of
                (Inl e, urls) \<Rightarrow> (Inr \<lparr>documents = [], chunkedFolders = None, buildMode = Single\<rparr>,
                                  st\<lparr>requested := requested st @ urls\<rparr>)
              | (Inr g, urls) \<Rightarrow> (Inr g, st\<lparr>requested := requested st @ urls, globalManifestCache := Some g\<rparr>))))"
  by (auto simp: getGlobalManifest_def try_catch_def await_def format_url_def fetch_json_def
           split: option.splits prod.splits sum.splits)


lemma getMarkdownContent_unfold:
  "getMarkdownContent pf assets request pfx st =
     (case getGlobalManifest pf assets request pfx st of
        (Inl e, st1) \<Rightarrow> (Inl e, st1)
      | (Inr g, st1) \<Rightarrow>
          if buildMode g = Chunked then (Inr [], st1)
          else (case contentCache st1 of
              Some cached \<Rightarrow> (Inr cached, st1)
            | None \<Rightarrow>
               (case formatAssetUrl (resolve_url pf) (or_default pfx MARKDOWN_CONFIG_PREFIX @ ''-content.json'') request None of
                  None \<Rightarrow> (Inr [], st1)
                | Some url \<Rightarrow>
                   (case fetchContent (gunzip pf) (parse_content pf) url assets of
                      (Inl e, urls) \<Rightarrow> (Inr [], st1\<lparr>requested := requested st1 @ urls\<rparr>)
                    | (Inr c, urls) \<Rightarrow> (Inr c, st1\<lparr>requested := requested st1 @ urls, contentCache := Some c\<rparr>)))))"
  by (auto simp: getMarkdownContent_def try_catch_def await_def format_url_def fetch_json_def
           split: option.splits prod.splits sum.splits)

lemma loadFolderContent_unfold:
  "loadFolderContent folder pf assets request pfx st =
     (case folder of
        JNum _ \<Rightarrow> (Inr [], st)
      | JStr name \<Rightarrow>
          (case folderContentCache st name of
             Some cached \<Rightarrow> (Inr cached, st)
           | None \<Rightarrow>
              (case formatAssetUrl (resolve_url pf)
                      (or_default pfx MARKDOWN_CONFIG_PREFIX @ ''-content-'' @ folderKey_of name @ ''.json'') request None of
                 None \<Rightarrow> (Inr [], st)
               | Some url \<Rightarrow>
                  (case fetchContent (gunzip pf) (parse_content pf) url assets of
                     (Inl e, urls) \<Rightarrow> (Inr [], st\<lparr>requested := requested st @ urls\<rparr>)
                   | (Inr c, urls) \<Rightarrow>
                       (Inr c, st\<lparr>requested := requested st @ urls,
                                  folderContentCache := (folderContentCache st)(name \<mapsto> c)\<rparr>)))))"
  by (auto simp: loadFolderContent_def try_catch_def await_def format_url_def fetch_json_def
           split: option.splits prod.splits sum.splits jsval.splits)

lemma getMarkdownManifest_unfold:
  "getMarkdownManifest pf assets request pfx st =
     (case manifestCache st of
        Some cached \<Rightarrow> (Inr cached, st)
      | None \<Rightarrow>
         (case getGlobalManifest pf assets request pfx st of
            (Inl e, st1) \<Rightarrow> (Inl e, st1)
          | (Inr g, st1) \<Rightarrow> (Inr (map strip_build_metadata (documents g)),
                             st1\<lparr>manifestCache := Some (map strip_build_metadata (documents g))\<rparr>)))"
  by (auto simp: getMarkdownManifest_def await_def Let_def split: option.splits prod.splits sum.splits)








subsection \<open>Caching\<close>



















lemmas ex_eval = getMarkdownContent_unfold getGlobalManifest_unfold getMarkdownManifest_unfold
  loadFolderContent_unfold fetchContent_def
  try_compressed_def try_uncompressed_def formatAssetUrl_def or_default_def suffix_def baseUrl_of_def
  gzUrl_of_def MARKDOWN_CONFIG_PREFIX_def ASSET_PREFIX_fetch_def ex_platform_def
  ok_response_def not_found_def initial_state_def fetched_def folderKey_of_def




subsection \<open>Document lookup\<close>

lemma getMarkdownDocument_unfold:
  "getMarkdownDocument slug pf assets request pfx st =
     (case getGlobalManifest pf assets request pfx st of
        (Inl e, st1) \<Rightarrow> (Inl e, st1)
      | (Inr g, st1) \<Rightarrow>
          if buildMode g = Chunked then
            (case getMarkdownManifest pf assets request pfx st1 of
               (Inl e, st2) \<Rightarrow> (Inl e, st2)
             | (Inr manifest, st2) \<Rightarrow>
                 (case find (\<lambda>doc. map_of doc ''slug'' = Some (JStr slug)) manifest of
                    None \<Rightarrow> (Inr Null, st2)
                  | Some docMeta \<Rightarrow>
                      (case loadFolderContent (folder_or_root (map_of docMeta ''folder'')) pf assets request pfx st2 of
                         (Inl e, st3) \<Rightarrow> (Inl e, st3)
                       | (Inr folderContent, st3) \<Rightarrow> (Inr (index_or_null folderContent slug), st3))))
          else
            (case getMarkdownContent pf assets request pfx st1 of
               (Inl e, st2) \<Rightarrow> (Inl e, st2)
             | (Inr all_content, st2) \<Rightarrow> (Inr (index_or_null all_content slug), st2)))"
  by (auto simp: getMarkdownDocument_def await_def return_def
           split: prod.splits sum.splits option.splits)






subsection \<open>Maps\<close>

lemma map_of_replace:
  "map_of (map (\<lambda>(k', v'). if k' = k then (k', v) else (k', v')) m) x =
     (if x = k then (if map_of m k = None then None else Some v) else map_of m x)"
  by (induction m) auto

lemma map_of_js_map_set: "map_of (js_map_set m k v) = (map_of m)(k \<mapsto> v)"
  by (auto simp: js_map_set_def map_of_replace fun_eq_iff map_add_def split: option.splits)

lemma keys_js_map_set:
  "map fst (js_map_set m k v) = (if map_of m k = None then map fst m @ [k] else map fst m)"
  by (auto simp: js_map_set_def split_def intro!: map_idI)

lemma distinct_js_map_set: "distinct (map fst m) \<Longrightarrow> distinct (map fst (js_map_set m k v))"
  by (auto simp: keys_js_map_set map_of_eq_None_iff)

lemma map_of_foldl_set:
  "map_of (foldl (\<lambda>m (k, v). js_map_set m k v) acc pairs) = map_of acc ++ map_of (rev pairs)"
proof (induction pairs arbitrary: acc)
  case Nil
  then show ?case by simp
next
  case (Cons p pairs)
  obtain k v where p: "p = (k, v)" by (cases p)
  show ?case
    by (simp add: Cons p map_of_js_map_set map_add_def fun_eq_iff split: option.splits)
qed

lemma map_of_js_map_new: "map_of (js_map_new pairs) = map_of (rev pairs)"
  by (simp add: js_map_new_def map_of_foldl_set)

lemma map_of_keyed:
  "map_of (map (\<lambda>entry. (f entry, entry)) ys) key = find (\<lambda>entry. f entry = key) ys"
  by (induction ys) auto

lemma map_of_rev_keyed:
  "map_of (rev (map (\<lambda>entry. (f entry, entry)) xs)) key = find (\<lambda>entry. f entry = key) (rev xs)"
  by (simp add: rev_map map_of_keyed)

text \<open>
  C2. \<open>checkForChanges\<close> reports a change if and only if some current file has no previous
  entry with the same relative path, or its \<open>mtime\<close> or size differs from the \<open>_mtime\<close> or
  \<open>_size\<close> of the previous entry with that path (the last one, should the previous manifest
  list a path twice), or the number of previous entries differs from the number of current
  files. Its inputs are the directory listing with the \<open>stat\<close> results and the previous
  manifest: no file content is read or compared.
\<close>

theorem checkForChanges_metadata_only:
  "fst (checkForChanges ext dir tree previous) \<longleftrightarrow>
     (\<exists>(relPath, info) \<in> set (collectMarkdownFilesWithMetadata ext dir tree).
         (\<forall>entry \<in> set previous. map_of entry ''path'' \<noteq> Some (JStr relPath))
       \<or> (\<exists>entry. find (\<lambda>entry. map_of entry ''path'' = Some (JStr relPath)) (rev previous) = Some entry
              \<and> (map_of entry ''_mtime'' \<noteq> Some (JNum (mtime (metadata info)))
                 \<or> map_of entry ''_size'' \<noteq> Some (JNum (file_size (metadata info))))))
     \<or> length previous \<noteq> length (collectMarkdownFilesWithMetadata ext dir tree)"
proof -
  let ?files = "collectMarkdownFilesWithMetadata ext dir tree"
  let ?prev = "\<lambda>relPath. find (\<lambda>entry. map_of entry ''path'' = Some (JStr relPath)) (rev previous)"
  have lookup: "map_of (js_map_new (map (\<lambda>entry. (map_of entry ''path'', entry)) previous)) (Some (JStr relPath))
      = ?prev relPath" for relPath
    by (simp add: map_of_js_map_new map_of_rev_keyed)
  have none: "?prev relPath = None \<longleftrightarrow> (\<forall>entry \<in> set previous. map_of entry ''path'' \<noteq> Some (JStr relPath))"
    for relPath
    by (auto simp: find_None_iff)
  have changed: "isFileChanged (?prev relPath) m \<longleftrightarrow>
      (\<forall>entry \<in> set previous. map_of entry ''path'' \<noteq> Some (JStr relPath))
      \<or> (\<exists>entry. ?prev relPath = Some entry
            \<and> (map_of entry ''_mtime'' \<noteq> Some (JNum (mtime m))
               \<or> map_of entry ''_size'' \<noteq> Some (JNum (file_size m))))" for relPath m
    using none [of relPath]
    by (cases "?prev relPath") (auto simp: isFileChanged_def)
  show ?thesis
    unfolding checkForChanges_def Let_def lookup changed
    by (auto simp: list_ex_iff)
qed

lemma ex_tree_files:
  "collectMarkdownFilesWithMetadata ''.md'' ''/docs'' ex_tree =
     [(''a.md'', \<lparr>path = ''/docs/a.md'', metadata = \<lparr>mtime = 1000, file_size = 10\<rparr>\<rparr>),
      (''b.md'', \<lparr>path = ''/docs/b.md'', metadata = \<lparr>mtime = 2000, file_size = 20\<rparr>\<rparr>),
      (''guide/intro.md'', \<lparr>path = ''/docs/guide/intro.md'', metadata = \<lparr>mtime = 3000, file_size = 30\<rparr>\<rparr>)]"
  by (simp add: collectMarkdownFilesWithMetadata_def ex_tree_def js_map_set_def path_join_def
        path_relative_def suffix_def)

theorem checkForChanges_metadata_only_witness:
  "fst (checkForChanges ''.md'' ''/docs'' ex_tree ex_previous_b)
   \<and> \<not> fst (checkForChanges ''.md'' ''/docs'' ex_tree ex_previous_same)"
proof -
  have "fst (checkForChanges ''.md'' ''/docs'' ex_tree ex_previous_b)"
    unfolding checkForChanges_metadata_only ex_tree_files
    by (simp add: ex_previous_b_def ex_entry_def)
  moreover have "\<not> fst (checkForChanges ''.md'' ''/docs'' ex_tree ex_previous_same)"
    unfolding checkForChanges_metadata_only ex_tree_files
    by (simp add: ex_previous_same_def ex_entry_def)
  ultimately show ?thesis by simp
qed

subsection \<open>What a build writes\<close>

lemma outputs_readFile: "readFile fs p = (r, fs') \<Longrightarrow> outputs fs' = outputs fs"
  by (auto simp: readFile_def)

lemma outputs_writeFile: "writeFile fs p t = Some fs' \<Longrightarrow> outputs fs' = outputs fs"
  by (auto simp: writeFile_def split: if_splits)

lemma outputs_updateFrontmatterDate:
  "updateFrontmatterDate opts env fs p t m = Inr (u, fs') \<Longrightarrow> outputs fs' = outputs fs"
  by (auto simp: updateFrontmatterDate_def Let_def outputs_writeFile
           split: if_splits sum.splits option.splits)

lemma outputs_processMarkdownFile:
  "processMarkdownFile opts env fs p = (r, fs') \<Longrightarrow> outputs fs' = outputs fs"
  by (auto simp: processMarkdownFile_def readFile_def split: sum.splits option.splits prod.splits)

lemma outputs_process_file:
  "process_file opts env entry (fs, acc) = (fs', acc') \<Longrightarrow> outputs fs' = outputs fs"
  unfolding process_file_def
  by (auto split: prod.splits sum.splits option.splits if_splits simp: Let_def
           dest!: outputs_readFile outputs_updateFrontmatterDate outputs_processMarkdownFile)

lemma outputs_process_entries_aux:
  "foldl (\<lambda>state entry. process_file opts env entry state) (fs, acc) files = (fs', acc')
   \<Longrightarrow> outputs fs' = outputs fs"
proof (induction files arbitrary: fs acc)
  case Nil
  then show ?case by simp
next
  case (Cons entry files)
  obtain fs1 acc1 where s: "process_file opts env entry (fs, acc) = (fs1, acc1)"
    by (cases "process_file opts env entry (fs, acc)")
  with Cons show ?case
    by (simp add: outputs_process_file [OF s])
qed

lemma outputs_process_entries:
  "process_entries opts env files fs = (fs', acc) \<Longrightarrow> outputs fs' = outputs fs"
  unfolding process_entries_def by (rule outputs_process_entries_aux)

lemma outputs_processChangedFiles:
  "processChangedFiles opts env files fs = (r, fs') \<Longrightarrow> outputs fs' = outputs fs"
  by (auto simp: processChangedFiles_def split: prod.splits dest: outputs_process_entries)

lemma outputs_processFolderFiles:
  "processFolderFiles opts env files fs = (r, fs') \<Longrightarrow> outputs fs' = outputs fs"
  by (auto simp: processFolderFiles_def split: prod.splits dest: outputs_process_entries)

lemma manifest_name_differs:
  "p @ ''-content-'' @ k @ ''.json'' \<noteq> p @ ''-manifest.json''"
  "p @ ''-content-'' @ k @ ''.json'' @ ''.gz'' \<noteq> p @ ''-manifest.json''"
  "(p @ ''-content-'' @ k @ ''.json'') @ ''.gz'' \<noteq> p @ ''-manifest.json''"
  "p @ ''-content.json'' \<noteq> p @ ''-manifest.json''"
  "(p @ ''-content.json'') @ ''.gz'' \<noteq> p @ ''-manifest.json''"
  by simp_all

lemma outputs_writeAsset:
  "outputs (case writeAsset fs name a of None \<Rightarrow> fs | Some fs' \<Rightarrow> fs') other
     = (if writable fs name \<and> other = name then Some a else outputs fs other)"
  by (simp add: writeAsset_def)

lemma writable_writeAsset:
  "writable (case writeAsset fs name a of None \<Rightarrow> fs | Some fs' \<Rightarrow> fs') = writable fs"
  by (simp add: writeAsset_def)

lemma outputs_writeFolderFiles:
  "outputs (writeFolderFiles opts fs folder c) (name_prefix opts @ ''-manifest.json'')
     = outputs fs (name_prefix opts @ ''-manifest.json'')"
  by (auto simp: writeFolderFiles_def writeCompressedVersions_def Let_def outputs_writeAsset
        manifest_name_differs)

lemma outputs_process_folder:
  "process_folder opts env allFolders folder (fs, pr) = (fs', pr')
   \<Longrightarrow> outputs fs' (name_prefix opts @ ''-manifest.json'') = outputs fs (name_prefix opts @ ''-manifest.json'')"
  unfolding process_folder_def
  by (auto split: option.splits prod.splits simp: outputs_writeFolderFiles dest!: outputs_processFolderFiles)

lemma outputs_processChangedFolders_aux:
  "foldl (\<lambda>state folder. process_folder opts env allFolders folder state) (fs, pr) folders = (fs', pr')
   \<Longrightarrow> outputs fs' (name_prefix opts @ ''-manifest.json'') = outputs fs (name_prefix opts @ ''-manifest.json'')"
proof (induction folders arbitrary: fs pr)
  case Nil
  then show ?case by simp
next
  case (Cons folder folders)
  obtain fs1 pr1 where s: "process_folder opts env allFolders folder (fs, pr) = (fs1, pr1)"
    by (cases "process_folder opts env allFolders folder (fs, pr)")
  with Cons show ?case
    by (simp add: outputs_process_folder [OF s])
qed

lemma outputs_processChangedFolders:
  "processChangedFolders opts env changedFolders allFolders fs = (r, fs')
   \<Longrightarrow> outputs fs' (name_prefix opts @ ''-manifest.json'') = outputs fs (name_prefix opts @ ''-manifest.json'')"
  by (auto simp: processChangedFolders_def split: prod.splits dest: outputs_processChangedFolders_aux)

lemma outputs_writeMarkdownFiles:
  "outputs (writeMarkdownFiles opts fs docs c folders) (name_prefix opts @ ''-manifest.json'')
     = (if writable fs (name_prefix opts @ ''-manifest.json'')
        then Some (ManifestJson \<lparr>documents = docs,
                                 chunkedFolders = (if chunkByFolder opts then folders else None),
                                 buildMode = (if chunkByFolder opts then Chunked else Single)\<rparr>)
        else outputs fs (name_prefix opts @ ''-manifest.json''))"
  by (auto simp: writeMarkdownFiles_def writeCompressedVersions_def Let_def writeAsset_def
        manifest_name_differs)

text \<open>
  C7. The global manifest that \<open>writeMarkdownFiles\<close> writes holds the list of document
  metadata records it was given; its \<open>_buildMode\<close> is \<open>chunked\<close> exactly when \<open>chunkByFolder\<close> is
  enabled and \<open>single\<close> otherwise; it has \<open>chunkedFolders\<close>, equal to the folder list,
  exactly when \<open>chunkByFolder\<close> is enabled and a folder list is supplied. Nothing else in a
  build writes the manifest file: after \<open>buildStart\<close> the file is as before or holds such a
  manifest, with \<open>chunkedFolders\<close> present exactly when \<open>chunkByFolder\<close> is enabled.
\<close>

theorem global_manifest_structure:
  "(writable fs (name_prefix opts @ ''-manifest.json'') \<longrightarrow>
      (\<exists>gm. outputs (writeMarkdownFiles opts fs docs c folders) (name_prefix opts @ ''-manifest.json'')
               = Some (ManifestJson gm)
            \<and> documents gm = docs
            \<and> (buildMode gm = Chunked \<longleftrightarrow> chunkByFolder opts)
            \<and> (buildMode gm = Single \<longleftrightarrow> \<not> chunkByFolder opts)
            \<and> (chunkedFolders gm \<noteq> None \<longleftrightarrow> chunkByFolder opts \<and> folders \<noteq> None)
            \<and> (chunkedFolders gm \<noteq> None \<longrightarrow> chunkedFolders gm = folders)))
   \<and> (outputs (buildStart opts env cwd fs) (name_prefix opts @ ''-manifest.json'')
         = outputs fs (name_prefix opts @ ''-manifest.json'')
       \<or> (\<exists>gm. outputs (buildStart opts env cwd fs) (name_prefix opts @ ''-manifest.json'')
                  = Some (ManifestJson gm)
               \<and> (buildMode gm = Chunked \<longleftrightarrow> chunkByFolder opts)
               \<and> (buildMode gm = Single \<longleftrightarrow> \<not> chunkByFolder opts)
               \<and> (chunkedFolders gm \<noteq> None \<longleftrightarrow> chunkByFolder opts)))"
proof
  show "writable fs (name_prefix opts @ ''-manifest.json'') \<longrightarrow>
      (\<exists>gm. outputs (writeMarkdownFiles opts fs docs c folders) (name_prefix opts @ ''-manifest.json'')
               = Some (ManifestJson gm)
            \<and> documents gm = docs
            \<and> (buildMode gm = Chunked \<longleftrightarrow> chunkByFolder opts)
            \<and> (buildMode gm = Single \<longleftrightarrow> \<not> chunkByFolder opts)
            \<and> (chunkedFolders gm \<noteq> None \<longleftrightarrow> chunkByFolder opts \<and> folders \<noteq> None)
            \<and> (chunkedFolders gm \<noteq> None \<longrightarrow> chunkedFolders gm = folders))"
    by (simp add: outputs_writeMarkdownFiles)
  show "outputs (buildStart opts env cwd fs) (name_prefix opts @ ''-manifest.json'')
         = outputs fs (name_prefix opts @ ''-manifest.json'')
       \<or> (\<exists>gm. outputs (buildStart opts env cwd fs) (name_prefix opts @ ''-manifest.json'')
                  = Some (ManifestJson gm)
               \<and> (buildMode gm = Chunked \<longleftrightarrow> chunkByFolder opts)
               \<and> (buildMode gm = Single \<longleftrightarrow> \<not> chunkByFolder opts)
               \<and> (chunkedFolders gm \<noteq> None \<longleftrightarrow> chunkByFolder opts))"
    unfolding buildStart_def Let_def
    by (auto split: option.splits prod.splits
             simp: outputs_writeMarkdownFiles
             dest!: outputs_processChangedFolders outputs_processChangedFiles)
qed

theorem global_manifest_structure_witness:
  "outputs (writeMarkdownFiles (default_options ''docs'') empty_fs ex_previous_same [] (Some [''root'', ''guide'']))
     ''markdown-manifest.json''
   = Some (ManifestJson \<lparr>documents = ex_previous_same, chunkedFolders = Some [''root'', ''guide''],
                          buildMode = Chunked\<rparr>)"
proof -
  have w: "writable empty_fs (name_prefix (default_options ''docs'') @ ''-manifest.json'')"
    by (simp add: empty_fs_def)
  have o: "chunkByFolder (default_options ''docs'')" "name_prefix (default_options ''docs'') = ''markdown''"
    by (simp_all add: default_options_def)
  from global_manifest_structure [of empty_fs "default_options ''docs''" ex_previous_same "[]"
      "Some [''root'', ''guide'']"] w o
  obtain gm where gm:
    "outputs (writeMarkdownFiles (default_options ''docs'') empty_fs ex_previous_same [] (Some [''root'', ''guide'']))
       ''markdown-manifest.json'' = Some (ManifestJson gm)"
    "documents gm = ex_previous_same" "buildMode gm = Chunked" "chunkedFolders gm = Some [''root'', ''guide'']"
    by auto
  then have "gm = \<lparr>documents = ex_previous_same, chunkedFolders = Some [''root'', ''guide''], buildMode = Chunked\<rparr>"
    by (cases gm) simp
  with gm(1) show ?thesis by simp
qed

subsection \<open>What a build reads\<close>

lemma reads_readFile: "readFile fs p = (r, fs') \<Longrightarrow> reads fs' = reads fs @ [p]"
  by (auto simp: readFile_def)

lemma reads_writeFile: "writeFile fs p t = Some fs' \<Longrightarrow> reads fs' = reads fs"
  by (auto simp: writeFile_def split: if_splits)

lemma reads_updateFrontmatterDate:
  "updateFrontmatterDate opts env fs p t m = Inr (u, fs') \<Longrightarrow> reads fs' = reads fs"
  by (auto simp: updateFrontmatterDate_def Let_def reads_writeFile
           split: if_splits sum.splits option.splits)

lemma reads_processMarkdownFile:
  "processMarkdownFile opts env fs p = (r, fs') \<Longrightarrow> reads fs' = reads fs @ [p]"
  by (auto simp: processMarkdownFile_def readFile_def split: sum.splits option.splits prod.splits)

lemma reads_process_file:
  "process_file opts env (relPath, info) (fs, acc) = (fs', acc')
   \<Longrightarrow> set (reads fs') = insert (path info) (set (reads fs))"
  unfolding process_file_def
  by (auto split: prod.splits sum.splits option.splits if_splits simp: Let_def
           dest!: reads_readFile reads_updateFrontmatterDate reads_processMarkdownFile)

lemma reads_process_entries_aux:
  "foldl (\<lambda>state entry. process_file opts env entry state) (fs, acc) files = (fs', acc')
   \<Longrightarrow> set (reads fs') = set (reads fs) \<union> paths_of files"
proof (induction files arbitrary: fs acc)
  case Nil
  then show ?case by (simp add: paths_of_def)
next
  case (Cons entry files)
  obtain relPath info where e: "entry = (relPath, info)" by (cases entry)
  obtain fs1 acc1 where s: "process_file opts env (relPath, info) (fs, acc) = (fs1, acc1)"
    by (cases "process_file opts env (relPath, info) (fs, acc)")
  from Cons.prems have "set (reads fs') = set (reads fs1) \<union> paths_of files"
    by (simp add: e s Cons.IH)
  with reads_process_file [OF s] show ?case
    by (auto simp: e paths_of_def)
qed

lemma reads_process_entries:
  "process_entries opts env files fs = (fs', acc) \<Longrightarrow> set (reads fs') = set (reads fs) \<union> paths_of files"
  unfolding process_entries_def by (rule reads_process_entries_aux)

lemma reads_processChangedFiles:
  "processChangedFiles opts env files fs = (r, fs') \<Longrightarrow> set (reads fs') = set (reads fs) \<union> paths_of files"
  by (auto simp: processChangedFiles_def split: prod.splits dest: reads_process_entries)

lemma reads_processFolderFiles:
  "processFolderFiles opts env files fs = (r, fs') \<Longrightarrow> set (reads fs') = set (reads fs) \<union> paths_of files"
  by (auto simp: processFolderFiles_def split: prod.splits dest: reads_process_entries)

lemma reads_writeAsset: "reads (case writeAsset fs name a of None \<Rightarrow> fs | Some fs' \<Rightarrow> fs') = reads fs"
  by (simp add: writeAsset_def)

lemma reads_writeCompressedVersions: "reads (writeCompressedVersions opts fs name a) = reads fs"
  by (simp add: writeCompressedVersions_def reads_writeAsset)

lemma reads_writeFolderFiles: "reads (writeFolderFiles opts fs folder c) = reads fs"
  by (simp add: writeFolderFiles_def Let_def reads_writeCompressedVersions reads_writeAsset)

lemma reads_writeMarkdownFiles: "reads (writeMarkdownFiles opts fs docs c folders) = reads fs"
  by (auto simp: writeMarkdownFiles_def Let_def reads_writeCompressedVersions writeAsset_def
           split: option.splits)

lemma reads_process_folder:
  "process_folder opts env allFolders folder (fs, pr) = (fs', pr')
   \<Longrightarrow> set (reads fs') = set (reads fs) \<union> (case map_of allFolders folder of None \<Rightarrow> {} | Some files \<Rightarrow> paths_of files)"
  unfolding process_folder_def
  by (auto split: option.splits prod.splits simp: reads_writeFolderFiles dest!: reads_processFolderFiles)

lemma reads_processChangedFolders_aux:
  "foldl (\<lambda>state folder. process_folder opts env allFolders folder state) (fs, pr) folders = (fs', pr')
   \<Longrightarrow> set (reads fs') = set (reads fs)
        \<union> (\<Union>folder \<in> set folders. case map_of allFolders folder of None \<Rightarrow> {} | Some files \<Rightarrow> paths_of files)"
proof (induction folders arbitrary: fs pr)
  case Nil
  then show ?case by simp
next
  case (Cons folder folders)
  obtain fs1 pr1 where s: "process_folder opts env allFolders folder (fs, pr) = (fs1, pr1)"
    by (cases "process_folder opts env allFolders folder (fs, pr)")
  from Cons.prems have "set (reads fs') = set (reads fs1)
        \<union> (\<Union>folder \<in> set folders. case map_of allFolders folder of None \<Rightarrow> {} | Some files \<Rightarrow> paths_of files)"
    by (simp add: s Cons.IH)
  with reads_process_folder [OF s] show ?case
    by auto
qed

lemma reads_processChangedFolders:
  "processChangedFolders opts env changedFolders allFolders fs = (r, fs')
   \<Longrightarrow> set (reads fs') = set (reads fs)
        \<union> (\<Union>folder \<in> set changedFolders. case map_of allFolders folder of None \<Rightarrow> {} | Some files \<Rightarrow> paths_of files)"
  by (auto simp: processChangedFolders_def split: prod.splits dest!: reads_processChangedFolders_aux)

lemma previous_lookup:
  "map_of (js_map_new (map (\<lambda>entry. (map_of entry ''path'', entry)) previous)) (Some (JStr relPath))
     = previous_entry previous relPath"
  by (simp add: map_of_js_map_new map_of_rev_keyed previous_entry_def)

lemma isFileChanged_previous:
  "isFileChanged (previous_entry previous relPath) (metadata info) = metadata_changed previous (relPath, info)"
  by (simp add: isFileChanged_def metadata_changed_def split: option.splits)

lemma checkForChanges_changed:
  "checkForChanges ext dir tree previous =
     (list_ex (metadata_changed previous) (collectMarkdownFilesWithMetadata ext dir tree)
      \<or> length previous \<noteq> length (collectMarkdownFilesWithMetadata ext dir tree),
      collectMarkdownFilesWithMetadata ext dir tree)"
proof -
  have "(\<lambda>(relPath, info). isFileChanged (previous_entry previous relPath) (metadata info))
      = metadata_changed previous"
    by (auto simp: isFileChanged_previous)
  then show ?thesis
    by (simp add: checkForChanges_def Let_def previous_lookup)
qed

lemma js_map_new_snoc: "js_map_new (ps @ [(k, v)]) = js_map_set (js_map_new ps) k v"
  by (simp add: js_map_new_def)

lemma keys_js_map_new:
  "distinct (map fst (js_map_new ps)) \<and> set (map fst (js_map_new ps)) = set (map fst ps)"
proof (induction ps rule: rev_induct)
  case Nil
  then show ?case by (simp add: js_map_new_def)
next
  case (snoc p ps)
  obtain k v where p: "p = (k, v)" by (cases p)
  from snoc show ?case
    unfolding p js_map_new_snoc
    by (auto simp: keys_js_map_set map_of_eq_None_iff image_iff)
qed

lemma length_js_map_new: "length (js_map_new ps) = length (remdups (map fst ps))"
proof -
  have d: "distinct (map fst (js_map_new ps))" and s: "set (map fst (js_map_new ps)) = set (map fst ps)"
    using keys_js_map_new [of ps] by blast+
  have "length (js_map_new ps) = length (map fst (js_map_new ps))"
    by simp
  also have "\<dots> = card (set (map fst (js_map_new ps)))"
    using d by (rule distinct_card [symmetric])
  also have "\<dots> = length (remdups (map fst ps))"
    unfolding s by (rule length_remdups_card_conv [symmetric])
  finally show ?thesis .
qed

lemma group_previous_snoc:
  "group_previous (xs @ [x]) =
     js_map_set (group_previous xs) (folder_or_root (map_of x ''folder''))
       (js_map_set (case map_of (group_previous xs) (folder_or_root (map_of x ''folder'')) of
                      None \<Rightarrow> [] | Some files \<Rightarrow> files)
          (map_of x ''path'') x)"
  by (simp add: group_previous_def)

lemma map_of_group_previous:
  "map_of (group_previous previous) key =
     (if filter (\<lambda>meta. folder_or_root (map_of meta ''folder'') = key) previous = [] then None
      else Some (js_map_new (map (\<lambda>meta. (map_of meta ''path'', meta))
                   (filter (\<lambda>meta. folder_or_root (map_of meta ''folder'') = key) previous))))"
proof (induction previous rule: rev_induct)
  case Nil
  then show ?case by (simp add: group_previous_def)
next
  case (snoc x xs)
  show ?case
  proof (cases "folder_or_root (map_of x ''folder'') = key")
    case True
    with snoc show ?thesis
      by (simp add: group_previous_snoc map_of_js_map_set js_map_new_snoc)
         (simp add: js_map_new_def)
  next
    case False
    with snoc show ?thesis
      by (simp add: group_previous_snoc map_of_js_map_set)
  qed
qed

lemma folder_changed_iff:
  "folder_changed (group_previous previous) entry = folder_metadata_changed previous entry"
proof -
  obtain folder files where e: "entry = (folder, files)" by (cases entry)
  let ?g = "previous_of_folder previous folder"
  have "(\<lambda>(relPath, info). isFileChanged (previous_entry ?g relPath) (metadata info)) = metadata_changed ?g"
    by (auto simp: isFileChanged_previous)
  then show ?thesis
    unfolding e folder_changed_def folder_metadata_changed_def
    by (simp add: map_of_group_previous previous_of_folder_def [symmetric] previous_lookup
          length_js_map_new comp_def)
qed

lemma distinct_foldl_set:
  "distinct (map fst acc) \<Longrightarrow> distinct (map fst (foldl (\<lambda>m x. js_map_set m (f m x) (g m x)) acc xs))"
  by (induction xs arbitrary: acc) (simp_all add: distinct_js_map_set)

lemma distinct_collectFilesByFolder: "distinct (map fst (collectFilesByFolder ext dir tree))"
proof -
  have "collectFilesByFolder ext dir tree =
      foldl (\<lambda>m x. js_map_set m (folder_key (fst x))
                (js_map_set (case map_of m (folder_key (fst x)) of None \<Rightarrow> [] | Some files \<Rightarrow> files)
                   (fst x) (snd x)))
        [] (collectMarkdownFilesWithMetadata ext dir tree)"
    by (simp add: collectFilesByFolder_def split_def)
  then show ?thesis
    using distinct_foldl_set [of "[]" "\<lambda>m x. folder_key (fst x)"] by simp
qed

lemma map_of_distinct_iff:
  "distinct (map fst xs) \<Longrightarrow> map_of xs k = Some v \<longleftrightarrow> (k, v) \<in> set xs"
  by (auto dest: map_of_SomeD intro: map_of_is_SomeI)

lemma union_changed_folders:
  assumes "distinct (map fst allFolders)"
  shows "(\<Union>folder \<in> set (map fst (filter P allFolders)).
            case map_of allFolders folder of None \<Rightarrow> {} | Some files \<Rightarrow> paths_of files)
         = \<Union> {paths_of files | folder files. (folder, files) \<in> set allFolders \<and> P (folder, files)}"
    (is "?l = ?r")
proof (rule set_eqI)
  fix x
  show "x \<in> ?l \<longleftrightarrow> x \<in> ?r"
  proof
    assume "x \<in> ?l"
    then obtain folder files' where f: "(folder, files') \<in> set allFolders" "P (folder, files')"
      and x: "x \<in> (case map_of allFolders folder of None \<Rightarrow> {} | Some files \<Rightarrow> paths_of files)"
      by auto
    from f(1) assms have "map_of allFolders folder = Some files'"
      by (simp add: map_of_distinct_iff)
    with x f show "x \<in> ?r" by auto
  next
    assume "x \<in> ?r"
    then obtain folder files where f: "(folder, files) \<in> set allFolders" "P (folder, files)"
      and x: "x \<in> paths_of files"
      by auto
    from f(1) assms have "map_of allFolders folder = Some files"
      by (simp add: map_of_distinct_iff)
    with x f show "x \<in> ?l"
      by force
  qed
qed

text \<open>
  C1, as amended. When the source directory exists, the source files a build reads are, in
  single mode, all current files if the metadata of some file changed relative to the
  previous manifest or the number of entries differs from the number of files, and none
  otherwise; in chunked mode without \<open>incrementalByFolder\<close>, the files of every current folder;
  in chunked mode with \<open>incrementalByFolder\<close>, the files of exactly the current folders that
  changed relative to the previous manifest.
\<close>

theorem build_reads_changed:
  assumes "source_tree fs = Some tree"
  shows "set (reads (buildStart opts env cwd fs)) =
     set (reads fs)
     \<union> (if chunkByFolder opts then
          \<Union> {paths_of files | folder files.
               (folder, files) \<in> set (collectFilesByFolder (extension opts) (path_join cwd (source opts)) tree)
               \<and> (incrementalByFolder opts
                    \<longrightarrow> folder_metadata_changed (loadPreviousManifest opts fs) (folder, files))}
        else if list_ex (metadata_changed (loadPreviousManifest opts fs))
                  (collectMarkdownFilesWithMetadata (extension opts) (path_join cwd (source opts)) tree)
                \<or> length (loadPreviousManifest opts fs)
                    \<noteq> length (collectMarkdownFilesWithMetadata (extension opts) (path_join cwd (source opts)) tree)
             then paths_of (collectMarkdownFilesWithMetadata (extension opts) (path_join cwd (source opts)) tree)
             else {})"
proof (cases "chunkByFolder opts")
  case False
  then show ?thesis
    using assms
    by (auto simp: buildStart_def Let_def checkForChanges_changed reads_writeMarkdownFiles
             split: prod.splits dest!: reads_processChangedFiles)
next
  case True
  let ?all = "collectFilesByFolder (extension opts) (path_join cwd (source opts)) tree"
  let ?P = "\<lambda>entry. incrementalByFolder opts \<longrightarrow> folder_metadata_changed (loadPreviousManifest opts fs) entry"
  have c: "checkForFolderChanges opts fs (path_join cwd (source opts)) tree = (map fst (filter ?P ?all), ?all)"
    by (auto simp: checkForFolderChanges_def Let_def folder_changed_iff [abs_def])
  have u: "(\<Union>folder \<in> set (map fst (filter ?P ?all)).
            case map_of ?all folder of None \<Rightarrow> {} | Some files \<Rightarrow> paths_of files)
         = \<Union> {paths_of files | folder files. (folder, files) \<in> set ?all \<and> ?P (folder, files)}"
    by (rule union_changed_folders [OF distinct_collectFilesByFolder])
  show ?thesis
  proof (cases "map fst (filter ?P ?all) = []")
    case True
    with u have e: "\<Union> {paths_of files | folder files. (folder, files) \<in> set ?all \<and> ?P (folder, files)} = {}"
      by simp
    have b: "buildStart opts env cwd fs = fs"
      using True \<open>chunkByFolder opts\<close> assms by (simp add: buildStart_def Let_def c)
    show ?thesis
      unfolding b if_P [OF \<open>chunkByFolder opts\<close>] e
      by (simp only: Un_empty_right)
  next
    case False
    obtain r fs1 where p: "processChangedFolders opts env (map fst (filter ?P ?all)) ?all fs = (r, fs1)"
      by (cases "processChangedFolders opts env (map fst (filter ?P ?all)) ?all fs")
    have b: "buildStart opts env cwd fs
        = writeMarkdownFiles opts fs1 (globalManifest_acc r) [] (Some (map fst ?all))"
      using False \<open>chunkByFolder opts\<close> assms by (simp add: buildStart_def Let_def c p)
    have "set (reads (buildStart opts env cwd fs)) = set (reads fs1)"
      unfolding b by (simp only: reads_writeMarkdownFiles)
    also have "\<dots> = set (reads fs)
        \<union> \<Union> {paths_of files | folder files. (folder, files) \<in> set ?all \<and> ?P (folder, files)}"
      unfolding reads_processChangedFolders [OF p] u ..
    finally show ?thesis
      unfolding if_P [OF \<open>chunkByFolder opts\<close>] .
  qed
qed

lemma reads_buildStart_single:
  assumes "source_tree fs = Some tree" and "\<not> chunkByFolder opts"
  shows "set (reads (buildStart opts env cwd fs)) =
     set (reads fs)
     \<union> (if list_ex (metadata_changed (loadPreviousManifest opts fs))
               (collectMarkdownFilesWithMetadata (extension opts) (path_join cwd (source opts)) tree)
             \<or> length (loadPreviousManifest opts fs)
                 \<noteq> length (collectMarkdownFilesWithMetadata (extension opts) (path_join cwd (source opts)) tree)
          then paths_of (collectMarkdownFilesWithMetadata (extension opts) (path_join cwd (source opts)) tree)
          else {})"
  using assms
  by (auto simp: buildStart_def Let_def checkForChanges_changed reads_writeMarkdownFiles
           split: prod.splits dest!: reads_processChangedFiles)

lemma site_files:
  "collectMarkdownFilesWithMetadata ''.md'' ''/site/docs'' ex_tree =
     [(''a.md'', \<lparr>path = ''/site/docs/a.md'', metadata = \<lparr>mtime = 1000, file_size = 10\<rparr>\<rparr>),
      (''b.md'', \<lparr>path = ''/site/docs/b.md'', metadata = \<lparr>mtime = 2000, file_size = 20\<rparr>\<rparr>),
      (''guide/intro.md'', \<lparr>path = ''/site/docs/guide/intro.md'', metadata = \<lparr>mtime = 3000, file_size = 30\<rparr>\<rparr>)]"
  by (simp add: collectMarkdownFilesWithMetadata_def ex_tree_def js_map_set_def path_join_def
        path_relative_def suffix_def)

lemma site_folders:
  "collectFilesByFolder ''.md'' ''/site/docs'' ex_tree =
     [(''root'',
       [(''a.md'', \<lparr>path = ''/site/docs/a.md'', metadata = \<lparr>mtime = 1000, file_size = 10\<rparr>\<rparr>),
        (''b.md'', \<lparr>path = ''/site/docs/b.md'', metadata = \<lparr>mtime = 2000, file_size = 20\<rparr>\<rparr>)]),
      (''guide'',
       [(''guide/intro.md'', \<lparr>path = ''/site/docs/guide/intro.md'', metadata = \<lparr>mtime = 3000, file_size = 30\<rparr>\<rparr>)])]"
  by (simp add: collectFilesByFolder_def site_files folder_key_def path_dirname_def js_map_set_def)

lemma previous_b_loaded:
  "loadPreviousManifest single_options (ex_project ex_previous_b) = ex_previous_b"
  "loadPreviousManifest incremental_options (ex_project ex_previous_b) = ex_previous_b"
  by (simp_all add: loadPreviousManifest_def single_options_def incremental_options_def
        default_options_def ex_project_def)

lemma changed_b:
  "\<not> metadata_changed ex_previous_b
       (''a.md'', \<lparr>path = ''/site/docs/a.md'', metadata = \<lparr>mtime = 1000, file_size = 10\<rparr>\<rparr>)"
  "metadata_changed ex_previous_b
       (''b.md'', \<lparr>path = ''/site/docs/b.md'', metadata = \<lparr>mtime = 2000, file_size = 20\<rparr>\<rparr>)"
  "\<not> metadata_changed ex_previous_b
       (''guide/intro.md'', \<lparr>path = ''/site/docs/guide/intro.md'', metadata = \<lparr>mtime = 3000, file_size = 30\<rparr>\<rparr>)"
  by (simp_all add: metadata_changed_def previous_entry_def ex_previous_b_def ex_entry_def)

text \<open>
  The claim as stated fails in single mode. With a previous manifest in which only \<open>b.md\<close>
  differs, the build reads \<open>a.md\<close> as well, whose metadata did not change.
\<close>

theorem build_reads_counterexample:
  "outputs (ex_project ex_previous_b) ''markdown-manifest.json''
     = Some (ManifestJson \<lparr>documents = ex_previous_b, chunkedFolders = None, buildMode = Single\<rparr>)
   \<and> \<not> metadata_changed (loadPreviousManifest single_options (ex_project ex_previous_b))
         (''a.md'', \<lparr>path = ''/site/docs/a.md'', metadata = \<lparr>mtime = 1000, file_size = 10\<rparr>\<rparr>)
   \<and> ''/site/docs/a.md'' \<in> set (reads (buildStart single_options ex_env ''/site'' (ex_project ex_previous_b)))"
proof -
  have t: "source_tree (ex_project ex_previous_b) = Some ex_tree"
    and c: "\<not> chunkByFolder single_options"
    and o: "extension single_options = ''.md''" "path_join ''/site'' (source single_options) = ''/site/docs''"
    by (simp_all add: ex_project_def single_options_def default_options_def path_join_def)
  have "''/site/docs/a.md'' \<in> set (reads (buildStart single_options ex_env ''/site'' (ex_project ex_previous_b)))"
    unfolding reads_buildStart_single [OF t c] o previous_b_loaded site_files
    by (simp add: changed_b paths_of_def)
  then show ?thesis
    by (simp add: previous_b_loaded changed_b) (simp add: ex_project_def)
qed

theorem build_reads_changed_witness:
  "set (reads (buildStart single_options ex_env ''/site'' (ex_project ex_previous_b)))
     = {''/site/docs/a.md'', ''/site/docs/b.md'', ''/site/docs/guide/intro.md''}
   \<and> set (reads (buildStart single_options ex_env ''/site'' (ex_project ex_previous_same))) = {}
   \<and> ''/site/docs/b.md'' \<in> set (reads (buildStart incremental_options ex_env ''/site'' (ex_project ex_previous_b)))
   \<and> ''/site/docs/guide/intro.md''
       \<notin> set (reads (buildStart incremental_options ex_env ''/site'' (ex_project ex_previous_b)))"
proof -
  have t: "source_tree (ex_project p) = Some ex_tree" for p
    by (simp add: ex_project_def)
  have o: "extension single_options = ''.md''" "path_join ''/site'' (source single_options) = ''/site/docs''"
    "chunkByFolder single_options = False"
    "extension incremental_options = ''.md''" "path_join ''/site'' (source incremental_options) = ''/site/docs''"
    "chunkByFolder incremental_options = True" "incrementalByFolder incremental_options = True"
    by (simp_all add: single_options_def incremental_options_def default_options_def path_join_def)
  have l: "loadPreviousManifest single_options (ex_project p) = p"
    "loadPreviousManifest incremental_options (ex_project p) = p" for p
    by (simp_all add: loadPreviousManifest_def single_options_def incremental_options_def
          default_options_def ex_project_def)
  have r: "reads (ex_project p) = []" for p
    by (simp add: ex_project_def)
  have same: "\<not> list_ex (metadata_changed ex_previous_same)
      (collectMarkdownFilesWithMetadata ''.md'' ''/site/docs'' ex_tree)"
    by (simp add: site_files metadata_changed_def previous_entry_def ex_previous_same_def ex_entry_def)
  have a: "set (reads (buildStart single_options ex_env ''/site'' (ex_project ex_previous_b)))
     = {''/site/docs/a.md'', ''/site/docs/b.md'', ''/site/docs/guide/intro.md''}"
    unfolding build_reads_changed [OF t] o l r
    by (simp add: site_files changed_b paths_of_def)
  have b: "set (reads (buildStart single_options ex_env ''/site'' (ex_project ex_previous_same))) = {}"
    unfolding build_reads_changed [OF t] o l r
    using same by (simp add: site_files ex_previous_same_def)
  have root: "folder_metadata_changed ex_previous_b
      (''root'',
       [(''a.md'', \<lparr>path = ''/site/docs/a.md'', metadata = \<lparr>mtime = 1000, file_size = 10\<rparr>\<rparr>),
        (''b.md'', \<lparr>path = ''/site/docs/b.md'', metadata = \<lparr>mtime = 2000, file_size = 20\<rparr>\<rparr>)])"
    by (simp add: folder_metadata_changed_def previous_of_folder_def folder_or_root_def
          metadata_changed_def previous_entry_def ex_previous_b_def ex_entry_def)
  have guide: "\<not> folder_metadata_changed ex_previous_b
      (''guide'',
       [(''guide/intro.md'', \<lparr>path = ''/site/docs/guide/intro.md'', metadata = \<lparr>mtime = 3000, file_size = 30\<rparr>\<rparr>)])"
    by (simp add: folder_metadata_changed_def previous_of_folder_def folder_or_root_def
          metadata_changed_def previous_entry_def ex_previous_b_def ex_entry_def)
  have c: "''/site/docs/b.md'' \<in> set (reads (buildStart incremental_options ex_env ''/site'' (ex_project ex_previous_b)))"
    unfolding build_reads_changed [OF t] o l r site_folders
    using root by (fastforce simp: paths_of_def)
  have d: "''/site/docs/guide/intro.md''
       \<notin> set (reads (buildStart incremental_options ex_env ''/site'' (ex_project ex_previous_b)))"
    unfolding build_reads_changed [OF t] o l r site_folders
    using guide by (auto simp: paths_of_def)
  from a b c d show ?thesis by simp
qed

subsection \<open>Frontmatter that names a build field\<close>

text \<open>
  C3, at a failing input. The documents \<open>a.md\<close> and \<open>b.md\<close> have distinct relative paths that
  end in the extension, and the frontmatter of both has the line \<open>slug: x\<close>. The handler
  derives the slugs \<open>a\<close> and \<open>b\<close> from the paths and keys the content by them, but the
  manifest entry spreads the frontmatter after the derived fields: both entries of the
  manifest that the build writes have the slug \<open>x\<close>.
\<close>

theorem duplicate_slugs_build:
  "outputs (buildStart (default_options ''docs'') ex_env ''/site'' slug_project) ''markdown-manifest.json''
     = Some (ManifestJson
        \<lparr>documents =
           [[(''slug'', JStr ''x''), (''path'', JStr ''a.md''),
             (''_mtime'', JNum 1704067200000), (''_size'', JNum 36), (''date'', JStr ''2024-01-01'')],
            [(''slug'', JStr ''x''), (''path'', JStr ''b.md''),
             (''_mtime'', JNum 1704067200000), (''_size'', JNum 36), (''date'', JStr ''2024-01-01'')]],
         chunkedFolders = Some [''root''], buildMode = Chunked\<rparr>)
   \<and> outputs (buildStart (default_options ''docs'') ex_env ''/site'' slug_project) ''markdown-content-root.json.gz''
     = Some (Gzipped (ContentJson
        [(''a'', \<lparr>frontmatter = [(''slug'', JStr ''x''), (''date'', JStr ''2024-01-01'')],
                 content = ''<p># A</p>''\<rparr>),
         (''b'', \<lparr>frontmatter = [(''slug'', JStr ''x''), (''date'', JStr ''2024-01-01'')],
                 content = ''<p># B</p>''\<rparr>)]))"
  by code_simp

theorem duplicate_slugs_build_witness:
  "map (\<lambda>doc. map_of doc ''slug'')
     (case outputs (buildStart (default_options ''docs'') ex_env ''/site'' slug_project) ''markdown-manifest.json'' of
        Some (ManifestJson gm) \<Rightarrow> documents gm
      | _ \<Rightarrow> [])
   = [Some (JStr ''x''), Some (JStr ''x'')]"
  using duplicate_slugs_build by simp

lemma folder_build:
  "outputs (buildStart (default_options ''docs'') ex_env ''/site'' folder_project) ''markdown-manifest.json''
   = Some (ManifestJson
      \<lparr>documents =
         [[(''slug'', JStr ''guide/intro''), (''path'', JStr ''guide/intro.md''), (''folder'', JStr ''misc''),
           (''_mtime'', JNum 1704067200000), (''_size'', JNum 45), (''date'', JStr ''2024-01-01'')]],
       chunkedFolders = Some [''guide''], buildMode = Chunked\<rparr>)"
  "outputs (buildStart (default_options ''docs'') ex_env ''/site'' folder_project) ''markdown-content-guide.json.gz''
   = Some (Gzipped (ContentJson
      [(''guide/intro'',
        \<lparr>frontmatter = [(''folder'', JStr ''misc''), (''date'', JStr ''2024-01-01'')],
         content = ''<p># Intro</p>''\<rparr>)]))"
  "outputs (buildStart (default_options ''docs'') ex_env ''/site'' folder_project) ''markdown-manifest.json.gz'' = None"
  "outputs (buildStart (default_options ''docs'') ex_env ''/site'' folder_project) ''markdown-content-misc.json.gz'' = None"
  "outputs (buildStart (default_options ''docs'') ex_env ''/site'' folder_project) ''markdown-content-misc.json'' = None"
  by code_simp+

text \<open>
  C4, at a failing input. The document \<open>guide/intro.md\<close> has the frontmatter line
  \<open>folder: misc\<close>. The chunked build writes its content into the chunk of its directory,
  \<open>guide\<close>, and records the folder \<open>misc\<close> in the manifest. Served what the build wrote,
  \<open>getMarkdownDocument\<close> requests the chunk of \<open>misc\<close>, which does not exist, and returns
  \<open>null\<close>.
\<close>

theorem folder_lookup_misses:
  "outputs (buildStart (default_options ''docs'') ex_env ''/site'' folder_project) ''markdown-content-guide.json.gz''
     = Some (Gzipped (ContentJson
        [(''guide/intro'',
          \<lparr>frontmatter = [(''folder'', JStr ''misc''), (''date'', JStr ''2024-01-01'')],
           content = ''<p># Intro</p>''\<rparr>)]))
   \<and> fst (getMarkdownDocument ''guide/intro'' ex_platform
            (serve_assets (outputs (buildStart (default_options ''docs'') ex_env ''/site'' folder_project)))
            None None initial_state)
     = Inr Null
   \<and> requested (snd (getMarkdownDocument ''guide/intro'' ex_platform
            (serve_assets (outputs (buildStart (default_options ''docs'') ex_env ''/site'' folder_project)))
            None None initial_state))
     = [''/assets/docs/markdown-manifest.json.gz'', ''/assets/docs/markdown-manifest.json'',
        ''/assets/docs/markdown-content-misc.json.gz'', ''/assets/docs/markdown-content-misc.json'']"
  by (simp add: getMarkdownDocument_unfold ex_eval serve_assets_def folder_build
        strip_build_metadata_def folder_or_root_def index_or_null_def object_prototype_members_def)

theorem folder_lookup_misses_witness:
  "fst (getMarkdownDocument ''guide/intro'' ex_platform
          (serve_assets (outputs (buildStart (default_options ''docs'') ex_env ''/site'' folder_project)))
          None None initial_state)
   \<noteq> Inr (Own \<lparr>frontmatter = [(''folder'', JStr ''misc''), (''date'', JStr ''2024-01-01'')],
                  content = ''<p># Intro</p>''\<rparr>)"
  using folder_lookup_misses by simp

subsection \<open>The worker pool\<close>

lemma finite_pending: "finite (pending s)"
  by (simp add: pending_def)

lemma pool_inv_start: "1 \<le> limit \<Longrightarrow> pool_inv limit items (start_pool items)"
  by (simp add: pool_inv_def start_pool_def pending_def)

lemma pending_settle: "pending (s\<lparr>settled := settled s @ [(n, r)]\<rparr>) = pending s - {n}"
  by (auto simp: pending_def is_settled_def)

lemma pool_inv_step:
  assumes "step limit s s'" and "pool_inv limit items s"
  shows "pool_inv limit items s'"
  using assms
proof (induction rule: step.induct)
  case (invoke s item rest)
  then show ?case
    by (auto simp: pool_inv_def pending_def is_settled_def less_Suc_eq)
next
  case (finish_loop s)
  then show ?case
    by (auto simp: pool_inv_def pending_def is_settled_def)
next
  case (race s n)
  then show ?case
    by (auto simp: pool_inv_def pending_def is_settled_def)
next
  case (drain s i)
  then have l: "length (executing s) = Suc i"
    by (simp add: pool_inv_def)
  then have e: "executing s = take i (executing s) @ [executing s ! i]"
    by (metis lessI take_Suc_conv_app_nth take_all order_refl)
  have d: "drop (Suc i) (executing s) = []"
    using l by simp
  from drain have p: "pending s \<subseteq> set (take i (executing s))"
    unfolding pool_inv_def
    by (subst (asm) (2) e) (auto simp: pending_def)
  have s: "set (take i (executing s)) \<subseteq> set (executing s)"
    by (rule set_take_subset)
  from drain p s l show ?case
    by (auto simp: pool_inv_def d pending_def is_settled_def)
next
  case (all_settled s)
  then show ?case
    by (auto simp: pool_inv_def pending_def list_all_iff is_settled_def)
next
  case (settle n s r)
  then show ?case
    by (auto simp: pool_inv_def pending_settle is_settled_def split: position.splits)
qed

lemma pool_inv_reachable:
  assumes "1 \<le> limit" and "reachable limit items s"
  shows "pool_inv limit items s"
  using assms(2) unfolding reachable_def
  by (induction rule: rtranclp_induct) (auto intro: pool_inv_start [OF assms(1)] pool_inv_step)

lemma pending_bound:
  assumes "pool_inv limit items s"
  shows "card (pending s) \<le> limit"
proof -
  have "card (pending s) \<le> card (set (executing s))"
    using assms by (auto simp: pool_inv_def intro: card_mono)
  also have "\<dots> \<le> length (executing s)"
    by (rule card_length)
  also have "\<dots> \<le> limit"
    using assms by (simp add: pool_inv_def)
  finally show ?thesis .
qed

lemma pool_progress:
  assumes "pool_inv limit items s" and "at s \<noteq> Done"
  shows "\<exists>s'. step limit s s'"
proof (cases "at s")
  case Loop
  then show ?thesis
    by (cases "todo s") (auto intro: step.finish_loop step.invoke)
next
  case Race
  with assms obtain n where n: "n \<in> set (executing s)"
    by (cases "executing s") (auto simp: pool_inv_def)
  show ?thesis
  proof (cases "is_settled s n")
    case True
    with Race n show ?thesis by (auto intro: step.race)
  next
    case False
    with n assms have "n \<in> pending s"
      by (auto simp: pool_inv_def pending_def)
    then show ?thesis by (auto intro: step.settle)
  qed
next
  case (Drain k)
  with assms obtain i where k: "k = Suc i" and i: "i < length (executing s)"
    by (cases k) (auto simp: pool_inv_def)
  show ?thesis
  proof (cases "is_settled s (executing s ! i)")
    case True
    with Drain k i show ?thesis by (auto intro: step.drain)
  next
    case False
    have "executing s ! i \<in> set (executing s)"
      using i by simp
    moreover have "set (executing s) \<subseteq> {..<length (started s)}"
      using assms by (simp add: pool_inv_def)
    ultimately have "executing s ! i < length (started s)"
      by blast
    with False have "executing s ! i \<in> pending s"
      by (simp add: pending_def)
    then show ?thesis by (auto intro: step.settle)
  qed
next
  case Final
  show ?thesis
  proof (cases "list_all (is_settled s) (executing s)")
    case True
    with Final show ?thesis by (auto intro: step.all_settled)
  next
    case False
    then obtain n where "n \<in> set (executing s)" "\<not> is_settled s n"
      by (auto simp: list_all_iff)
    with assms have "n \<in> pending s"
      by (auto simp: pool_inv_def pending_def)
    then show ?thesis by (auto intro: step.settle)
  qed
next
  case Done
  with assms show ?thesis by simp
qed

lemma step_decreases:
  assumes "step limit s s'"
  shows "(s', s) \<in> measures [\<lambda>s. length (todo s), \<lambda>s. card (pending s), rank]"
  using assms
proof (induction rule: step.induct)
  case (settle n s r)
  have "card (pending s - {n}) < card (pending s)"
    by (rule card_Diff1_less [OF finite_pending settle.hyps])
  then have "card (pending (s\<lparr>settled := settled s @ [(n, r)]\<rparr>)) < card (pending s)"
    by (simp only: pending_settle)
  then show ?case
    by simp
qed (auto simp: rank_def pending_def is_settled_def)

lemma wf_step: "wf {(s', s). step limit s s'}"
  by (rule wf_subset [OF wf_measures [of "[\<lambda>s. length (todo s), \<lambda>s. card (pending s), rank]"]])
     (auto dest: step_decreases)

lemma reachable_start: "reachable limit items (start_pool items)"
  by (simp add: reachable_def)

lemma reachable_step:
  assumes "reachable limit items s" and "step limit s s'"
  shows "reachable limit items s'"
  using assms by (simp add: reachable_def)

lemma both_invoked:
  assumes "2 \<le> limit"
  shows "reachable limit [x, y]
    \<lparr>todo = [], started = [x, y], executing = [0, 1], settled = [],
     at = (if limit = 2 then Race else Loop)\<rparr>"
proof -
  have "step limit (start_pool [x, y])
      \<lparr>todo = [y], started = [x], executing = [0], settled = [], at = Loop\<rparr>"
    using assms step.invoke [where s = "start_pool [x, y]" and item = x and rest = "[y]" and limit = limit]
    by (simp add: start_pool_def)
  from reachable_step [OF reachable_start this]
  have r: "reachable limit [x, y]
      \<lparr>todo = [y], started = [x], executing = [0], settled = [], at = Loop\<rparr>" .
  have "step limit \<lparr>todo = [y], started = [x], executing = [0], settled = [], at = Loop\<rparr>
      \<lparr>todo = [], started = [x, y], executing = [0, 1], settled = [],
       at = (if limit = 2 then Race else Loop)\<rparr>"
    using assms
      step.invoke [where s = "\<lparr>todo = [y], started = [x], executing = [0], settled = [], at = Loop\<rparr>"
        and item = y and rest = "[]" and limit = limit]
    by (cases "limit = 2") auto
  from reachable_step [OF r this] show ?thesis .
qed

lemma both_settled:
  assumes "2 \<le> limit" and "(a = 0 \<and> b = 1) \<or> (a = 1 \<and> b = 0)"
  shows "reachable limit [x, y]
    \<lparr>todo = [], started = [x, y], executing = [0, 1], settled = [(a, Rejected), (b, Rejected)],
     at = (if limit = 2 then Race else Loop)\<rparr>"
proof -
  let ?p = "if limit = 2 then Race else Loop"
  let ?s0 = "\<lparr>todo = [], started = [x, y], executing = [0, 1], settled = [], at = ?p\<rparr>"
  let ?s1 = "\<lparr>todo = [], started = [x, y], executing = [0, 1], settled = [(a, Rejected)], at = ?p\<rparr>"
  have "a \<in> pending ?s0"
    using assms(2) by (auto simp: pending_def is_settled_def)
  from step.settle [OF this, where r = Rejected and limit = limit]
  have "step limit ?s0 ?s1"
    by simp
  from reachable_step [OF both_invoked [OF assms(1)] this]
  have r: "reachable limit [x, y] ?s1" .
  have "b \<in> pending ?s1"
    using assms(2) by (auto simp: pending_def is_settled_def)
  from step.settle [OF this, where r = Rejected and limit = limit]
  have "step limit ?s1
      \<lparr>todo = [], started = [x, y], executing = [0, 1], settled = [(a, Rejected), (b, Rejected)], at = ?p\<rparr>"
    by simp
  from reachable_step [OF r this] show ?thesis .
qed

lemma two_handlers_run:
  assumes "2 \<le> limit" and "(a = 0 \<and> b = 1) \<or> (a = 1 \<and> b = 0)"
  shows "\<exists>s. reachable limit [x, y] s \<and> at s = Done \<and> settled s = [(a, Rejected), (b, Rejected)]"
proof (cases "limit = 2")
  case True
  let ?r = "[(a, Rejected), (b, Rejected)]"
  let ?s = "\<lparr>todo = [], started = [x, y], executing = [0, 1], settled = ?r, at = Race\<rparr>"
  have r0: "reachable limit [x, y] ?s"
    using both_settled [OF assms, of x y] True by simp
  have "step limit ?s \<lparr>todo = [], started = [x, y], executing = [0, 1], settled = ?r, at = Drain (Suc (Suc 0))\<rparr>"
    using assms(2) step.race [where s = ?s and n = 0 and limit = limit]
    by (auto simp: is_settled_def)
  from reachable_step [OF r0 this]
  have r1: "reachable limit [x, y]
      \<lparr>todo = [], started = [x, y], executing = [0, 1], settled = ?r, at = Drain (Suc (Suc 0))\<rparr>" .
  have "step limit \<lparr>todo = [], started = [x, y], executing = [0, 1], settled = ?r, at = Drain (Suc (Suc 0))\<rparr>
      \<lparr>todo = [], started = [x, y], executing = [0], settled = ?r, at = Drain (Suc 0)\<rparr>"
    using assms(2)
      step.drain [where s = "\<lparr>todo = [], started = [x, y], executing = [0, 1], settled = ?r, at = Drain (Suc (Suc 0))\<rparr>"
        and i = "Suc 0" and limit = limit]
    by (auto simp: is_settled_def numeral_2_eq_2)
  from reachable_step [OF r1 this]
  have r2: "reachable limit [x, y]
      \<lparr>todo = [], started = [x, y], executing = [0], settled = ?r, at = Drain (Suc 0)\<rparr>" .
  have "step limit \<lparr>todo = [], started = [x, y], executing = [0], settled = ?r, at = Drain (Suc 0)\<rparr>
      \<lparr>todo = [], started = [x, y], executing = [], settled = ?r, at = Loop\<rparr>"
    using assms(2)
      step.drain [where s = "\<lparr>todo = [], started = [x, y], executing = [0], settled = ?r, at = Drain (Suc 0)\<rparr>"
        and i = 0 and limit = limit]
    by (auto simp: is_settled_def)
  from reachable_step [OF r2 this]
  have r3: "reachable limit [x, y]
      \<lparr>todo = [], started = [x, y], executing = [], settled = ?r, at = Loop\<rparr>" .
  have "step limit \<lparr>todo = [], started = [x, y], executing = [], settled = ?r, at = Loop\<rparr>
      \<lparr>todo = [], started = [x, y], executing = [], settled = ?r, at = Final\<rparr>"
    using step.finish_loop [where s = "\<lparr>todo = [], started = [x, y], executing = [], settled = ?r, at = Loop\<rparr>"
        and limit = limit]
    by simp
  from reachable_step [OF r3 this]
  have r4: "reachable limit [x, y]
      \<lparr>todo = [], started = [x, y], executing = [], settled = ?r, at = Final\<rparr>" .
  have "step limit \<lparr>todo = [], started = [x, y], executing = [], settled = ?r, at = Final\<rparr>
      \<lparr>todo = [], started = [x, y], executing = [], settled = ?r, at = Done\<rparr>"
    using step.all_settled [where s = "\<lparr>todo = [], started = [x, y], executing = [], settled = ?r, at = Final\<rparr>"
        and limit = limit]
    by simp
  from reachable_step [OF r4 this]
  have "reachable limit [x, y]
      \<lparr>todo = [], started = [x, y], executing = [], settled = ?r, at = Done\<rparr>" .
  then show ?thesis
    by (intro exI [of _ "\<lparr>todo = [], started = [x, y], executing = [], settled = ?r, at = Done\<rparr>"]) simp
next
  case False
  let ?r = "[(a, Rejected), (b, Rejected)]"
  let ?s = "\<lparr>todo = [], started = [x, y], executing = [0, 1], settled = ?r, at = Loop\<rparr>"
  have r0: "reachable limit [x, y] ?s"
    using both_settled [OF assms, of x y] False by simp
  have "step limit ?s \<lparr>todo = [], started = [x, y], executing = [0, 1], settled = ?r, at = Final\<rparr>"
    using step.finish_loop [where s = ?s and limit = limit] by simp
  from reachable_step [OF r0 this]
  have r1: "reachable limit [x, y]
      \<lparr>todo = [], started = [x, y], executing = [0, 1], settled = ?r, at = Final\<rparr>" .
  have "step limit \<lparr>todo = [], started = [x, y], executing = [0, 1], settled = ?r, at = Final\<rparr>
      \<lparr>todo = [], started = [x, y], executing = [0, 1], settled = ?r, at = Done\<rparr>"
    using assms(2)
      step.all_settled [where s = "\<lparr>todo = [], started = [x, y], executing = [0, 1], settled = ?r, at = Final\<rparr>"
        and limit = limit]
    by (auto simp: is_settled_def)
  from reachable_step [OF r1 this]
  have "reachable limit [x, y]
      \<lparr>todo = [], started = [x, y], executing = [0, 1], settled = ?r, at = Done\<rparr>" .
  then show ?thesis
    by (intro exI [of _ "\<lparr>todo = [], started = [x, y], executing = [0, 1], settled = ?r, at = Done\<rparr>"]) simp
qed

text \<open>
  Claim C8 (bounded worker pool). For every list of items and every limit of at least 1, in
  every state that a run of \<open>execConcurrently\<close> reaches: the handler has been invoked on a
  prefix of the items, once for each and in their order, and on all of them once the function
  has returned; at most \<open>limit\<close> invocations are pending; unless the function has returned,
  the run can go on, whether the handlers settled so far were fulfilled or rejected, and no
  run goes on for ever, so that every run which is not cut short ends with the function
  returning. The order in which the handlers settle is not fixed: with a limit of at least 2
  and two items, there is a run to the end in which the first handler settles first and one
  in which the second does, both handlers rejecting.
\<close>

theorem execConcurrently_pool:
  fixes items :: "'a list"
  assumes "1 \<le> limit" and "reachable limit items s"
  shows "started s @ todo s = items
    \<and> (at s = Done \<longrightarrow> started s = items \<and> pending s = {})
    \<and> card (pending s) \<le> limit
    \<and> (at s \<noteq> Done \<longrightarrow> (\<exists>s'. step limit s s'))
    \<and> wf {(t', t :: 'a pool). step limit t t'}
    \<and> (2 \<le> limit \<longrightarrow>
         (\<exists>s1 s2. reachable limit [x, y :: 'a] s1 \<and> at s1 = Done
            \<and> settled s1 = [(0, Rejected), (1, Rejected)]
            \<and> reachable limit [x, y] s2 \<and> at s2 = Done
            \<and> settled s2 = [(1, Rejected), (0, Rejected)]))"
proof -
  from assms have i: "pool_inv limit items s"
    by (rule pool_inv_reachable)
  then have a: "started s @ todo s = items"
    by (simp add: pool_inv_def)
  have b: "started s = items \<and> pending s = {}" if "at s = Done"
    using i that by (auto simp: pool_inv_def)
  have c: "card (pending s) \<le> limit"
    using i by (rule pending_bound)
  have d: "\<exists>s'. step limit s s'" if "at s \<noteq> Done"
    using i that by (rule pool_progress)
  have e: "wf {(t', t :: 'a pool). step limit t t'}"
    by (rule wf_step)
  have f: "\<exists>s1 s2. reachable limit [x, y] s1 \<and> at s1 = Done
            \<and> settled s1 = [(0, Rejected), (1, Rejected)]
            \<and> reachable limit [x, y] s2 \<and> at s2 = Done
            \<and> settled s2 = [(1, Rejected), (0, Rejected)]" if "2 \<le> limit"
    using two_handlers_run [OF that, of 0 1 x y] two_handlers_run [OF that, of 1 0 x y]
    by auto
  from a b c d e f show ?thesis
    by blast
qed

theorem execConcurrently_pool_witness:
  "reachable 2 [''a.md'', ''b.md'']
     \<lparr>todo = [], started = [''a.md'', ''b.md''], executing = [0, 1], settled = [], at = Race\<rparr>
   \<and> pending \<lparr>todo = [], started = [''a.md'', ''b.md''], executing = [0, 1], settled = [],
        at = Race\<rparr> = {0, 1}
   \<and> card (pending \<lparr>todo = [], started = [''a.md'', ''b.md''], executing = [0, 1], settled = [],
        at = Race\<rparr>) \<le> 2
   \<and> (\<exists>s'. step 2 \<lparr>todo = [], started = [''a.md'', ''b.md''], executing = [0, 1],
        settled = [], at = Race\<rparr> s')
   \<and> (\<exists>s1 s2. reachable 2 [''a.md'', ''b.md''] s1 \<and> at s1 = Done
        \<and> settled s1 = [(0, Rejected), (1, Rejected)]
        \<and> reachable 2 [''a.md'', ''b.md''] s2 \<and> at s2 = Done
        \<and> settled s2 = [(1, Rejected), (0, Rejected)])"
proof -
  let ?s = "\<lparr>todo = [], started = [''a.md'', ''b.md''], executing = [0, 1], settled = [],
    at = Race\<rparr>"
  have r: "reachable 2 [''a.md'', ''b.md''] ?s"
    using both_invoked [of 2 "''a.md''" "''b.md''"] by simp
  have p: "pending ?s = {0, 1}"
    by (auto simp: pending_def is_settled_def)
  from execConcurrently_pool [where limit = 2 and x = "''a.md''" and y = "''b.md''", OF _ r] r p
  show ?thesis
    by simp
qed

end
